theory Spec2Isabelle
  imports Complex_Main "HOL-Library.Multiset"
begin

section \<open>Numbers and their printing\<close>

text \<open>
  The request handler of \<^verbatim>\<open>src/server/api.js\<close> computes with JavaScript numbers, that
  is with IEEE 754 binary64 values. A number is modelled by the real number it denotes,
  and every arithmetic operation rounds its exact result to the nearest double, ties to
  even (\<open>fl\<close>). The operations round their arguments first, so a real that is not a double
  stands for the double nearest to it, as a decimal literal and \<^verbatim>\<open>parseFloat\<close> do.
  Timestamps (\<^verbatim>\<open>Date.getTime()\<close>, milliseconds) and the results of \<^verbatim>\<open>parseInt\<close> are
  integers. \<^verbatim>\<open>NaN\<close>, the infinities and overflow beyond the largest double have no
  counterpart.
\<close>

text \<open>The binary exponent of a positive number: \<open>2 powi expo x \<le> x < 2 powi (expo x + 1)\<close>.\<close>

function expo :: "real \<Rightarrow> int" where
  "expo x = (if 2 \<le> x then expo (x / 2) + 1
             else if 0 < x \<and> x < 1 then expo (x * 2) - 1
             else 0)"
  by pat_completeness auto
termination
proof (relation "measure (\<lambda>x. if 1 \<le> x then nat \<lfloor>x\<rfloor> else nat \<lceil>1 / x\<rceil> + 2)")
  show "wf (measure (\<lambda>x::real. if 1 \<le> x then nat \<lfloor>x\<rfloor> else nat \<lceil>1 / x\<rceil> + 2))"
    by simp
next
  fix x :: real
  assume "2 \<le> x"
  then have "\<lfloor>x / 2\<rfloor> < \<lfloor>x\<rfloor>" by linarith
  moreover have "0 \<le> \<lfloor>x / 2\<rfloor>" using \<open>2 \<le> x\<close> by simp
  ultimately show "(x / 2, x) \<in> measure (\<lambda>x. if 1 \<le> x then nat \<lfloor>x\<rfloor> else nat \<lceil>1 / x\<rceil> + 2)"
    using \<open>2 \<le> x\<close> by simp
next
  fix x :: real
  assume a: "\<not> 2 \<le> x" "0 < x \<and> x < 1"
  show "(x * 2, x) \<in> measure (\<lambda>x. if 1 \<le> x then nat \<lfloor>x\<rfloor> else nat \<lceil>1 / x\<rceil> + 2)"
  proof (cases "1 \<le> x * 2")
    case True
    then have "\<lfloor>x * 2\<rfloor> = 1" using a by linarith
    with True a show ?thesis by simp
  next
    case False
    then have "2 < 1 / x" using a by (simp add: field_simps)
    define y where "y = 1 / x"
    have y: "2 < y" using \<open>2 < 1 / x\<close> by (simp add: y_def)
    have h: "1 / (x * 2) = y / 2" by (simp add: y_def)
    have "of_int \<lceil>y / 2\<rceil> < y / 2 + 1" by linarith
    also have "\<dots> < y" using y by linarith
    also have "\<dots> \<le> of_int \<lceil>y\<rceil>" by linarith
    finally have "\<lceil>y / 2\<rceil> < \<lceil>y\<rceil>" by simp
    then have "\<lceil>1 / (x * 2)\<rceil> < \<lceil>1 / x\<rceil>" unfolding h by (simp add: y_def)
    moreover have "0 < \<lceil>1 / (x * 2)\<rceil>" using a by simp
    ultimately show ?thesis using False a by simp
  qed
qed

declare expo.simps [simp del]

text \<open>The nearest integer, a tie going to the even one.\<close>

definition round_half_even :: "real \<Rightarrow> int" where
  "round_half_even n =
     (let f = \<lfloor>n\<rfloor>; r = n - of_int f
      in if r < 1 / 2 then f else if 1 / 2 < r then f + 1 else if even f then f else f + 1)"

text \<open>
  The nearest double: 53 significant bits, the exponent not below that of the subnormal
  numbers.
\<close>

definition fl :: "real \<Rightarrow> real" where
  "fl x =
     (if x = 0 then 0
      else (let e = max (expo \<bar>x\<bar>) (- 1022); q = 2 powi (e - 52)
            in of_int (round_half_even (x / q)) * q))"

text \<open>The operators \<^verbatim>\<open>*\<close>, \<^verbatim>\<open>/\<close> and \<^verbatim>\<open>-\<close> on numbers.\<close>

definition fmul :: "real \<Rightarrow> real \<Rightarrow> real" where
  "fmul x y = fl (fl x * fl y)"

definition fdiv :: "real \<Rightarrow> real \<Rightarrow> real" where
  "fdiv x y = fl (fl x / fl y)"

definition fsub :: "real \<Rightarrow> real \<Rightarrow> real" where
  "fsub x y = fl (fl x - fl y)"

text \<open>\<^verbatim>\<open>Math.round\<close>: the nearest integer, a tie going towards plus infinity.\<close>

definition Math_round :: "real \<Rightarrow> real" where
  "Math_round x = of_int \<lfloor>x + 1 / 2\<rfloor>"

text \<open>\<^verbatim>\<open>const round = (num) => Math.round(num * 100) / 100;\<close>\<close>

definition round2 :: "real \<Rightarrow> real" where
  "round2 num = fdiv (Math_round (fmul num 100)) 100"

text \<open>
  The rounding the specification names, written from its words: round half away from
  zero, applied to the value times 100, then divided by 100 (the product and the
  quotient being those of the number type).
\<close>

definition round_half_away_from_zero :: "real \<Rightarrow> real" where
  "round_half_away_from_zero y = sgn y * of_int \<lfloor>\<bar>y\<bar> + 1 / 2\<rfloor>"

definition spec_round2 :: "real \<Rightarrow> real" where
  "spec_round2 x = fdiv (round_half_away_from_zero (fmul x 100)) 100"

text \<open>
  Number to string, as string concatenation and template literals do it: the shortest
  decimal that reads back as the same double. The handler only prints integers and
  outputs of \<^const>\<open>round2\<close>, that is doubles nearest to a multiple of 1/100, for which
  this is that multiple: a minus sign if negative, the integer part in decimal, then
  the one or two decimals that are not trailing zeros (the notation JavaScript uses
  below \<open>10\<^sup>2\<^sup>1\<close>).
\<close>

definition digit :: "nat \<Rightarrow> char" where
  "digit n = ''0123456789'' ! n"

fun show_nat :: "nat \<Rightarrow> string" where
  "show_nat n = (if n < 10 then [digit n] else show_nat (n div 10) @ [digit (n mod 10)])"

declare show_nat.simps [simp del]

definition toString :: "real \<Rightarrow> string" where
  "toString x =
     (let k = nat \<lfloor>\<bar>x\<bar> * 100 + 1 / 2\<rfloor>; ip = k div 100; fp = k mod 100
      in (if x < 0 then ''-'' else []) @ show_nat ip @
         (if fp = 0 then []
          else if fp mod 10 = 0 then CHR ''.'' # [digit (fp div 10)]
          else CHR ''.'' # [digit (fp div 10), digit (fp mod 10)]))"

text \<open>The remainder operator \<^verbatim>\<open>%\<close> on integers: the sign follows the dividend.\<close>

definition js_rem :: "int \<Rightarrow> int \<Rightarrow> int" where
  "js_rem a b = sgn a * (\<bar>a\<bar> mod \<bar>b\<bar>)"

text \<open>
  \<^verbatim>\<open>const formatTime = (time) =>
    Math.floor(time / 60) + ":" + (time % 60 < 10 ? "0" : "") + Math.floor(time % 60);\<close>
\<close>

definition formatTime :: "int \<Rightarrow> string" where
  "formatTime time =
     toString (of_int (time div 60)) @ '':'' @
     (if js_rem time 60 < 10 then ''0'' else '''') @ toString (of_int (js_rem time 60))"

section \<open>Documents\<close>

text \<open>
  One element of the array that \<^verbatim>\<open>osuApi.getBeatmaps\<close> resolves to: the fields of a
  beatmap that the handler reads (\<^verbatim>\<open>id\<close>, \<^verbatim>\<open>bpm\<close>, \<^verbatim>\<open>length.total\<close> and
  \<^verbatim>\<open>difficulty.rating\<close> already parsed).
\<close>

record beatmap =
  bm_id :: int
  bm_title :: string
  bm_artist :: string
  bm_creator :: string
  bm_bpm :: real
  bm_length_total :: int
  bm_version :: string
  bm_mode :: string
  bm_difficulty_rating :: real
  bm_approvalStatus :: string
  bm_beatmapSetId :: string

record diff =
  name :: string
  mode :: string
  sr :: real

text \<open>The object \<^verbatim>\<open>map\<close> of the handler; its field \<^verbatim>\<open>length\<close> is \<open>length_fmt\<close> here.\<close>

record mapset =
  mapId :: int
  title :: string
  artist :: string
  creator :: string
  bpm :: real
  length_fmt :: string
  comment :: string
  m4m :: bool
  diffs :: "diff list"
  status :: string
  image :: string

text \<open>
  A stored \<^verbatim>\<open>Request\<close> document: the fields the handler passes to \<^verbatim>\<open>new Request\<close>,
  and \<^verbatim>\<open>feedback\<close>, which only \<^verbatim>\<open>POST /api/request-edit\<close> sets.
\<close>

record request = mapset +
  user :: string
  requestDate :: int
  target :: string
  archived :: bool
  feedback :: "string option"

text \<open>
  Modelled from the spec: the \<^verbatim>\<open>Settings\<close> schema (\<^verbatim>\<open>models/settings.js\<close>) is not
  among the sources. The fields are those the handler reads, typed as the specification's
  QueueSettings: owner identifier, moderator tier, accepted categories, open flag, cooldown
  period in days, integer capacity threshold.
\<close>

record settings =
  owner :: string
  modderType :: string
  modes :: "string list"
  open_flag :: bool
  cooldown :: real
  maxPending :: int

text \<open>\<^verbatim>\<open>req.user\<close> and \<^verbatim>\<open>req.body\<close>; an absent parameter is \<open>None\<close>.\<close>

record session_user =
  username :: string
  userid :: string

record body =
  req_id :: string
  req_comment :: "string option"
  req_m4m :: "bool option"
  req_target :: string

text \<open>The two collections of the store.\<close>

record db =
  Request_coll :: "request list"
  Settings_coll :: "settings list"

datatype error = TypeError

text \<open>
  The three bodies the handler sends: \<^verbatim>\<open>{ mapset: {}, errors }\<close>, \<^verbatim>\<open>{ map, errors }\<close> and
  \<^verbatim>\<open>{ map: request, errors }\<close>.
\<close>

datatype response =
  Resp_empty (resp_errors: "string list")
| Resp_map mapset (resp_errors: "string list")
| Resp_request request (resp_errors: "string list")

section \<open>Store queries\<close>

definition findOne :: "('a \<Rightarrow> bool) \<Rightarrow> 'a list \<Rightarrow> 'a option" where
  "findOne P xs = find P xs"

definition countDocuments :: "('a \<Rightarrow> bool) \<Rightarrow> 'a list \<Rightarrow> nat" where
  "countDocuments P xs = length (filter P xs)"

fun updateOne :: "('a \<Rightarrow> bool) \<Rightarrow> ('a \<Rightarrow> 'a) \<Rightarrow> 'a list \<Rightarrow> 'a list" where
  "updateOne P f [] = []"
| "updateOne P f (x # xs) = (if P x then f x # xs else x # updateOne P f xs)"

text \<open>\<^verbatim>\<open>.sort({ requestDate: -1 })\<close> on a \<^verbatim>\<open>findOne\<close>: the match with the greatest date.\<close>

fun newest :: "request list \<Rightarrow> request option" where
  "newest [] = None"
| "newest (r # rs) =
     (case newest rs of
        None \<Rightarrow> Some r
      | Some r' \<Rightarrow> if requestDate r < requestDate r' then Some r' else Some r)"

definition findOne_newest :: "(request \<Rightarrow> bool) \<Rightarrow> request list \<Rightarrow> request option" where
  "findOne_newest P rs = newest (filter P rs)"

section \<open>The handler of POST /api/request\<close>

definition FULL :: string where "FULL = ''full''"
definition PROBATION :: string where "PROBATION = ''probation''"
definition MODDER :: string where "MODDER = ''modder''"

definition isBN :: "settings \<Rightarrow> bool" where
  "isBN s \<longleftrightarrow> modderType s = FULL \<or> modderType s = PROBATION"

text \<open>\<^verbatim>\<open>Array.prototype.join\<close> on strings.\<close>

fun join :: "string \<Rightarrow> string list \<Rightarrow> string" where
  "join sep [] = []"
| "join sep [x] = x"
| "join sep (x # y # ys) = x @ sep @ join sep (y # ys)"

text \<open>
  Lines 57 to 63: every beatmap of the set becomes a difficulty with its rating rounded,
  and the difficulties are sorted by \<^verbatim>\<open>(a, b) => a.sr - b.sr\<close> (a stable sort).
\<close>

definition mk_diff :: "beatmap \<Rightarrow> diff" where
  "mk_diff d = \<lparr>name = bm_version d, mode = bm_mode d, sr = round2 (bm_difficulty_rating d)\<rparr>"

definition mk_diffs :: "beatmap list \<Rightarrow> diff list" where
  "mk_diffs mapData = sort_key sr (map mk_diff mapData)"

text \<open>Lines 48 to 66, with \<open>first\<close> for \<^verbatim>\<open>mapData[0]\<close>.\<close>

definition mk_map :: "beatmap \<Rightarrow> beatmap list \<Rightarrow> body \<Rightarrow> mapset" where
  "mk_map first mapData b =
     \<lparr>mapId = bm_id first,
      title = bm_title first,
      artist = bm_artist first,
      creator = bm_creator first,
      bpm = bm_bpm first,
      length_fmt = formatTime (bm_length_total first),
      comment = (case req_comment b of None \<Rightarrow> [] | Some c \<Rightarrow> c),
      m4m = (case req_m4m b of None \<Rightarrow> False | Some v \<Rightarrow> v),
      diffs = mk_diffs mapData,
      status = bm_approvalStatus first,
      image = ''https://assets.ppy.sh/beatmaps/'' @ bm_beatmapSetId first @ ''/covers/cover.jpg''\<rparr>"

text \<open>Lines 75 to 83.\<close>

definition category_rule :: "settings \<Rightarrow> mapset \<Rightarrow> string list" where
  "category_rule s m =
     (let acceptableDiffs = filter (\<lambda>d. mode d \<in> set (modes s)) (diffs m)
      in if length acceptableDiffs = 0
         then (if length (modes s) = 1
               then [''Only '' @ hd (modes s) @ '' maps are accepted'']
               else [''Must be one of the following gamemodes: '' @ join '', '' (modes s)])
         else [])"

text \<open>Lines 85 to 87.\<close>

definition status_rule :: "settings \<Rightarrow> mapset \<Rightarrow> string list" where
  "status_rule s m =
     (if isBN s \<and> status m \<noteq> ''Pending''
      then [''Expected a Pending map (this is '' @ status m @ '')'']
      else [])"

text \<open>Lines 89 to 91.\<close>

definition creator_rule :: "session_user \<Rightarrow> mapset \<Rightarrow> string list" where
  "creator_rule u m = (if creator m \<noteq> username u then [''This map isn't yours''] else [])"

text \<open>Lines 93 to 95.\<close>

definition comment_rule :: "mapset \<Rightarrow> string list" where
  "comment_rule m = (if length (comment m) > 500 then [''Comment is excessively long''] else [])"

text \<open>Lines 105 to 107.\<close>

definition open_rule :: "settings \<Rightarrow> string list" where
  "open_rule s = (if \<not> open_flag s then [''Requests are closed''] else [])"

text \<open>
  Lines 109 to 119. \<open>elapsedMs\<close> is \<^verbatim>\<open>diff\<close>, \<open>minWait\<close> is \<^verbatim>\<open>minWait\<close> (the products
  taken from left to right), and \<open>remainingDays\<close> is the number printed in the message.
\<close>

definition elapsedMs :: "int \<Rightarrow> request \<Rightarrow> real" where
  "elapsedMs now lastReq = fsub (of_int now) (of_int (requestDate lastReq))"

definition minWait :: "settings \<Rightarrow> real" where
  "minWait s = fmul (fmul (fmul (cooldown s) 24) 3600) 1000"

definition remainingDays :: "int \<Rightarrow> settings \<Rightarrow> request \<Rightarrow> real" where
  "remainingDays now s lastReq =
     round2 (fdiv (fsub (minWait s) (elapsedMs now lastReq)) (24 * 3600 * 1000))"

definition cooldown_rule :: "int \<Rightarrow> settings \<Rightarrow> request option \<Rightarrow> string list" where
  "cooldown_rule now s lastReq =
     (case lastReq of
        None \<Rightarrow> []
      | Some r \<Rightarrow>
          (if elapsedMs now r < minWait s
           then [''You need to wait '' @ toString (remainingDays now s r) @
                 '' days before you can request again'']
           else []))"

text \<open>Lines 74 to 119: the pushes onto \<^verbatim>\<open>errors\<close>, in the order of the source.\<close>

definition validate ::
  "session_user \<Rightarrow> int \<Rightarrow> settings \<Rightarrow> request option \<Rightarrow> mapset \<Rightarrow> string list" where
  "validate u now s lastReq m =
     category_rule s m @ status_rule s m @ creator_rule u m @ comment_rule m @
     open_rule s @ cooldown_rule now s lastReq"

text \<open>Lines 128 to 135: the spread of \<^verbatim>\<open>map\<close>, then the keys that follow it.\<close>

definition new_Request :: "mapset \<Rightarrow> session_user \<Rightarrow> int \<Rightarrow> body \<Rightarrow> request" where
  "new_Request m u now b =
     \<lparr>mapId = mapId m,
      title = title m,
      artist = artist m,
      creator = creator m,
      bpm = bpm m,
      length_fmt = length_fmt m,
      comment = comment m,
      m4m = m4m m,
      diffs = diffs m,
      status = ''Pending'',
      image = image m,
      user = userid u,
      requestDate = now,
      target = req_target b,
      archived = False,
      feedback = None\<rparr>"

text \<open>Line 138: the filter of \<^verbatim>\<open>Request.countDocuments\<close>.\<close>

definition numPending :: "string \<Rightarrow> request list \<Rightarrow> nat" where
  "numPending t rs = countDocuments (\<lambda>r. status r = ''Pending'' \<and> target r = t) rs"

text \<open>Lines 136 to 142: save, count, and close the queue when it is full.\<close>

definition save_and_close :: "request \<Rightarrow> settings \<Rightarrow> string \<Rightarrow> db \<Rightarrow> db" where
  "save_and_close rq s t st =
     (let st1 = st\<lparr>Request_coll := Request_coll st @ [rq]\<rparr>
      in if int (numPending t (Request_coll st1)) \<ge> maxPending s
         then st1\<lparr>Settings_coll :=
                     updateOne (\<lambda>x. owner x = t) (\<lambda>x. x\<lparr>open_flag := False\<rparr>) (Settings_coll st1)\<rparr>
         else st1)"

text \<open>
  The handler. \<open>osuApi\<close> is the metadata provider: \<open>None\<close> when \<^verbatim>\<open>getBeatmaps\<close>
  throws. Reading \<^verbatim>\<open>mapData[0].id\<close> of an empty array and \<^verbatim>\<open>settings.modes\<close> of a
  missing settings document throw a \<^verbatim>\<open>TypeError\<close>, and nothing is sent.
\<close>

definition post_request ::
  "(string \<Rightarrow> beatmap list option) \<Rightarrow> session_user \<Rightarrow> body \<Rightarrow> int \<Rightarrow> db \<Rightarrow>
   error + (response \<times> db)" where
  "post_request osuApi u b now st =
     (case osuApi (req_id b) of
        None \<Rightarrow> Inr (Resp_empty [''Invalid beatmap ID''], st)
      | Some mapData \<Rightarrow>
          (case mapData of
             [] \<Rightarrow> Inl TypeError
           | first # _ \<Rightarrow>
               (let m = mk_map first mapData b;
                    lastReq = findOne_newest
                      (\<lambda>r. user r = userid u \<and> target r = req_target b) (Request_coll st)
                in case findOne (\<lambda>x. owner x = req_target b) (Settings_coll st) of
                     None \<Rightarrow> Inl TypeError
                   | Some s \<Rightarrow>
                       (let errors = validate u now s lastReq m;
                            errors = (if username u = req_target b then [] else errors)
                        in if length errors \<noteq> 0
                           then Inr (Resp_map m errors, st)
                           else (let rq = new_Request m u now b
                                 in Inr (Resp_request rq errors,
                                         save_and_close rq s (req_target b) st))))))"

text \<open>
  The metadata client. The handler calls \<^verbatim>\<open>osuApi.getBeatmaps\<close> on the client that line 4
  builds with \<^verbatim>\<open>new osu.Api(key)\<close> and no options; the client library is not among the
  sources. With these defaults the call throws when the request to the provider fails
  and when the provider's result is empty, and resolves to the beatmaps otherwise (the
  specification, 4.1: the lookup fails or returns empty). \<open>None\<close> stands for the throw.
\<close>

datatype lookup = Lookup_failed | Lookup_result "beatmap list"

definition getBeatmaps :: "(string \<Rightarrow> lookup) \<Rightarrow> string \<Rightarrow> beatmap list option" where
  "getBeatmaps provider sid =
     (case provider sid of
        Lookup_failed \<Rightarrow> None
      | Lookup_result [] \<Rightarrow> None
      | Lookup_result (bm # bms) \<Rightarrow> Some (bm # bms))"

text \<open>
  The pending count in the specification's words (4.2): the target's requests that are
  not archived and have status "Pending".
\<close>

definition spec_pendingCount :: "string \<Rightarrow> request list \<Rightarrow> nat" where
  "spec_pendingCount t rs =
     length (filter (\<lambda>r. \<not> archived r \<and> status r = ''Pending'' \<and> target r = t) rs)"

text \<open>The open flag of a target's queue, as \<^verbatim>\<open>Settings.findOne({ owner })\<close> reads it.\<close>

definition queue_open :: "string \<Rightarrow> db \<Rightarrow> bool option" where
  "queue_open t st = map_option open_flag (findOne (\<lambda>x. owner x = t) (Settings_coll st))"

text \<open>What a response carries: the stored request of an acceptance, and the difficulties.\<close>

fun accepted :: "response \<Rightarrow> request option" where
  "accepted (Resp_request rq errors) = Some rq"
| "accepted (Resp_map m errors) = None"
| "accepted (Resp_empty errors) = None"


section \<open>Sample inputs\<close>

text \<open>
  A provider that knows two beatmap sets by \<open>alice\<close>, answers one id with an empty result
  and fails on every other id; a store with four open queues and one archived request to
  \<open>dave\<close>; and a store with the closed queue of \<open>gina\<close> and two earlier requests to it.
  The theorems below are instantiated on them.
\<close>

definition ex_beatmap :: "string \<Rightarrow> real \<Rightarrow> string \<Rightarrow> beatmap" where
  "ex_beatmap version rating approval =
     \<lparr>bm_id = 101, bm_title = ''Song'', bm_artist = ''Band'', bm_creator = ''alice'',
      bm_bpm = 180, bm_length_total = 125, bm_version = version, bm_mode = ''Standard'',
      bm_difficulty_rating = rating, bm_approvalStatus = approval, bm_beatmapSetId = ''77''\<rparr>"

definition ex_provider :: "string \<Rightarrow> lookup" where
  "ex_provider sid =
     (if sid = ''77''
      then Lookup_result
             [ex_beatmap ''Hard'' (3456 / 1000) ''Pending'', ex_beatmap ''Easy'' (3 / 2) ''Pending'']
      else if sid = ''88'' then Lookup_result [ex_beatmap ''Normal'' 2 ''Ranked'']
      else if sid = ''empty'' then Lookup_result []
      else Lookup_failed)"

definition ex_osuApi :: "string \<Rightarrow> beatmap list option" where
  "ex_osuApi = getBeatmaps ex_provider"

definition ex_queue :: "string \<Rightarrow> string \<Rightarrow> string list \<Rightarrow> int \<Rightarrow> settings" where
  "ex_queue own tier ms cap =
     \<lparr>owner = own, modderType = tier, modes = ms, open_flag = True, cooldown = 7,
      maxPending = cap\<rparr>"

definition ex_stored :: "string \<Rightarrow> int \<Rightarrow> bool \<Rightarrow> request" where
  "ex_stored t date arch =
     \<lparr>mapId = 5, title = ''Old'', artist = ''Band'', creator = ''erin'', bpm = 120,
      length_fmt = ''1:30'', comment = [], m4m = False, diffs = [], status = ''Pending'',
      image = [], user = ''9'', requestDate = date, target = t, archived = arch,
      feedback = None\<rparr>"

definition ex_db :: db where
  "ex_db =
     \<lparr>Request_coll = [ex_stored ''dave'' 100 True],
      Settings_coll =
        [ex_queue ''bob'' ''full'' [''Taiko''] 2,
         ex_queue ''carol'' ''modder'' [''Standard'', ''Taiko''] 1,
         ex_queue ''dave'' ''modder'' [''Standard''] 2,
         ex_queue ''erin'' ''modder'' [''Standard''] 2]\<rparr>"

definition ex_alice :: session_user where
  "ex_alice = \<lparr>username = ''alice'', userid = ''1''\<rparr>"

definition ex_body :: "string \<Rightarrow> string option \<Rightarrow> string \<Rightarrow> body" where
  "ex_body sid c t = \<lparr>req_id = sid, req_comment = c, req_m4m = None, req_target = t\<rparr>"

definition ex_db_closed :: db where
  "ex_db_closed =
     \<lparr>Request_coll = [ex_stored ''gina'' 100 False, (ex_stored ''gina'' 200 False)\<lparr>user := ''7''\<rparr>],
      Settings_coll = [(ex_queue ''gina'' ''probation'' [''Taiko'', ''Mania''] 5)\<lparr>open_flag := False\<rparr>]\<rparr>"

definition ex_frank :: session_user where
  "ex_frank = \<lparr>username = ''frank'', userid = ''9''\<rparr>"

definition ex_gina :: session_user where
  "ex_gina = \<lparr>username = ''gina'', userid = ''7''\<rparr>"

section \<open>Unfolding the handler\<close>

lemmas ex_defs = ex_beatmap_def ex_provider_def ex_osuApi_def getBeatmaps_def ex_queue_def
  ex_stored_def ex_db_def ex_alice_def ex_body_def ex_db_closed_def ex_frank_def ex_gina_def

lemmas handler_defs = post_request_def findOne_def findOne_newest_def validate_def
  category_rule_def status_rule_def creator_rule_def comment_rule_def open_rule_def
  cooldown_rule_def remainingDays_def elapsedMs_def minWait_def isBN_def FULL_def
  PROBATION_def mk_map_def mk_diffs_def mk_diff_def new_Request_def save_and_close_def
  numPending_def countDocuments_def

lemmas number_defs = round2_def Math_round_def fmul_def fdiv_def fsub_def fl_def expo.simps
  round_half_even_def toString_def show_nat.simps digit_def

lemma post_request_cases:
  assumes "post_request osuApi u b now st = Inr (resp, st')"
  obtains
    (invalid) "osuApi (req_id b) = None" "resp = Resp_empty [''Invalid beatmap ID'']" "st' = st"
  | (rejected) first rest s errors where
      "osuApi (req_id b) = Some (first # rest)"
      "findOne (\<lambda>x. owner x = req_target b) (Settings_coll st) = Some s"
      "errors \<noteq> []"
      "resp = Resp_map (mk_map first (first # rest) b) errors"
      "st' = st"
  | (accepted) first rest s where
      "osuApi (req_id b) = Some (first # rest)"
      "findOne (\<lambda>x. owner x = req_target b) (Settings_coll st) = Some s"
      "resp = Resp_request (new_Request (mk_map first (first # rest) b) u now b) []"
      "st' = save_and_close (new_Request (mk_map first (first # rest) b) u now b) s (req_target b) st"
  using assms
  by (auto simp add: post_request_def Let_def split: option.splits list.splits if_splits)

lemma post_request_evaluated:
  assumes "osuApi (req_id b) = Some (first # rest)"
      and "findOne (\<lambda>x. owner x = req_target b) (Settings_coll st) = Some s"
  shows "post_request osuApi u b now st =
     (let m = mk_map first (first # rest) b;
          errors = (if username u = req_target b then []
                    else validate u now s
                           (findOne_newest (\<lambda>r. user r = userid u \<and> target r = req_target b)
                              (Request_coll st)) m)
      in if errors = []
         then Inr (Resp_request (new_Request m u now b) [],
                   save_and_close (new_Request m u now b) s (req_target b) st)
         else Inr (Resp_map m errors, st))"
  using assms by (simp add: post_request_def Let_def)

lemma find_updateOne:
  assumes "\<And>x. P (f x) = P x"
  shows "find P (updateOne P f xs) = map_option f (find P xs)"
  by (induction xs) (simp_all add: assms)

lemma numPending_snoc:
  "numPending t (rs @ [rq]) =
     numPending t rs + (if status rq = ''Pending'' \<and> target rq = t then 1 else 0)"
  by (simp add: numPending_def countDocuments_def)

lemma new_Request_pending:
  "status (new_Request m u now b) = ''Pending''" "target (new_Request m u now b) = req_target b"
  by (simp_all add: new_Request_def)

lemma Request_coll_save_and_close:
  "Request_coll (save_and_close rq s t st) = Request_coll st @ [rq]"
  by (simp add: save_and_close_def Let_def)

lemma Settings_coll_save_and_close:
  "Settings_coll (save_and_close rq s t st) =
     (if maxPending s \<le> int (numPending t (Request_coll st @ [rq]))
      then updateOne (\<lambda>x. owner x = t) (\<lambda>x. x\<lparr>open_flag := False\<rparr>) (Settings_coll st)
      else Settings_coll st)"
  by (simp add: save_and_close_def Let_def)

lemma closed_after_update:
  assumes "findOne (\<lambda>x. owner x = t) ss = Some s"
  shows "map_option open_flag
           (findOne (\<lambda>x. owner x = t)
              (updateOne (\<lambda>x. owner x = t) (\<lambda>x. x\<lparr>open_flag := False\<rparr>) ss)) = Some False"
  using assms by (simp add: findOne_def find_updateOne)

section \<open>The nearest double\<close>

lemma powi_Suc: "(2::real) powi (e + 1) = 2 * 2 powi e"
  by (simp add: power_int_add)

lemma powi_pred: "(2::real) powi (e - 1) = 2 powi e / 2"
  by (simp add: power_int_diff)

lemma powi_less_imp: "(2::real) powi a < 2 powi b \<Longrightarrow> a < b"
proof (rule ccontr)
  assume l: "(2::real) powi a < 2 powi b" and "\<not> a < b"
  then have "b \<le> a" by simp
  then have "(2::real) powi b \<le> 2 powi a" by (rule power_int_increasing) simp
  with l show False by simp
qed

lemma expo_bounds: "0 < x \<Longrightarrow> 2 powi (expo x) \<le> x \<and> x < 2 powi (expo x + 1)"
proof (induction x rule: expo.induct)
  case (1 x)
  show ?case
  proof (cases "2 \<le> x")
    case True
    then have e: "expo x = expo (x / 2) + 1" by (subst expo.simps) simp
    from True "1.prems" have "2 powi (expo (x / 2)) \<le> x / 2 \<and> x / 2 < 2 powi (expo (x / 2) + 1)"
      by (intro "1.IH"(1)) simp_all
    then show ?thesis unfolding e powi_Suc by simp
  next
    case False
    show ?thesis
    proof (cases "x < 1")
      case True
      with False "1.prems" have e: "expo x = expo (x * 2) - 1" by (subst expo.simps) simp
      from True False "1.prems"
      have "2 powi (expo (x * 2)) \<le> x * 2 \<and> x * 2 < 2 powi (expo (x * 2) + 1)"
        by (intro "1.IH"(2)) simp_all
      then show ?thesis unfolding e powi_Suc by (simp add: powi_pred)
    next
      case ge: False
      with False have e: "expo x = 0" by (subst expo.simps) simp
      from ge False show ?thesis unfolding e by simp
    qed
  qed
qed

lemma round_half_even_of_int: "round_half_even (of_int n) = n"
  by (simp add: round_half_even_def)

lemma round_half_even_ge: "of_int a \<le> z \<Longrightarrow> a \<le> round_half_even z"
proof -
  assume "of_int a \<le> z"
  then have "a \<le> \<lfloor>z\<rfloor>" by (simp add: le_floor_iff)
  then show ?thesis by (simp add: round_half_even_def Let_def)
qed

lemma round_half_even_le: "z \<le> of_int b \<Longrightarrow> round_half_even z \<le> b"
proof -
  assume z: "z \<le> of_int b"
  then have f: "\<lfloor>z\<rfloor> \<le> b" by linarith
  show ?thesis
  proof (cases "z = of_int \<lfloor>z\<rfloor>")
    case True
    then have "z - of_int \<lfloor>z\<rfloor> = 0" by simp
    then show ?thesis using f by (simp add: round_half_even_def Let_def)
  next
    case False
    then have "of_int \<lfloor>z\<rfloor> < z" using of_int_floor_le [of z] by linarith
    with z have "of_int \<lfloor>z\<rfloor> < (of_int b :: real)" by simp
    then have "\<lfloor>z\<rfloor> < b" by simp
    then show ?thesis by (simp add: round_half_even_def Let_def)
  qed
qed

text \<open>Every number of the form \<open>m * 2 powi j\<close> with \<open>\<bar>m\<bar> < 2^53\<close> and \<open>j \<ge> -1074\<close> is a double.\<close>

lemma fl_representable:
  assumes m: "\<bar>m\<bar> < 2 ^ 53" and j: "- 1074 \<le> j"
  shows "fl (of_int m * 2 powi j) = of_int m * 2 powi j"
proof (cases "m = 0")
  case True
  then show ?thesis by (simp add: fl_def)
next
  case False
  define x :: real where "x = of_int m * 2 powi j"
  define e where "e = max (expo \<bar>x\<bar>) (- 1022)"
  have x0: "x \<noteq> 0" using False by (simp add: x_def)
  have ax: "\<bar>x\<bar> = of_int \<bar>m\<bar> * 2 powi j" by (simp add: x_def abs_mult)
  have "of_int \<bar>m\<bar> < (2::real) ^ 53" using m by (metis of_int_less_numeral_power_cancel_iff)
  then have "\<bar>x\<bar> < 2 ^ 53 * 2 powi j" unfolding ax by simp
  also have "\<dots> = 2 powi (j + 53)" by (simp add: power_int_add)
  finally have up: "\<bar>x\<bar> < 2 powi (j + 53)" .
  have "2 powi (expo \<bar>x\<bar>) \<le> \<bar>x\<bar>" using expo_bounds [of "\<bar>x\<bar>"] x0 by simp
  with up have "(2::real) powi (expo \<bar>x\<bar>) < 2 powi (j + 53)" by simp
  then have "expo \<bar>x\<bar> < j + 53" by (rule powi_less_imp)
  with j have ej: "e \<le> j + 52" by (simp add: e_def)
  define d where "d = nat (j + 52 - e)"
  have d: "j = (e - 52) + int d" using ej by (simp add: d_def)
  have pj: "(2::real) powi j = 2 ^ d * 2 powi (e - 52)"
    by (subst d) (simp add: power_int_add)
  have q: "x / 2 powi (e - 52) = of_int (m * 2 ^ d)"
    unfolding x_def pj by simp
  have "fl x = of_int (round_half_even (x / 2 powi (e - 52))) * 2 powi (e - 52)"
    using x0 by (simp add: fl_def Let_def e_def)
  also have "\<dots> = of_int (m * 2 ^ d) * 2 powi (e - 52)"
    unfolding q round_half_even_of_int ..
  also have "\<dots> = x"
    unfolding x_def pj by simp
  finally show ?thesis by (simp add: x_def)
qed

lemma fl_of_int: "\<bar>k\<bar> < 2 ^ 53 \<Longrightarrow> fl (of_int k) = of_int k"
  using fl_representable [of k 0] by simp

lemma fl_idem: "fl (fl x) = fl x"
proof (cases "x = 0")
  case True
  then show ?thesis by (simp add: fl_def)
next
  case False
  define e where "e = max (expo \<bar>x\<bar>) (- 1022)"
  define q :: real where "q = 2 powi (e - 52)"
  define n where "n = round_half_even (x / q)"
  have q0: "0 < q" by (simp add: q_def)
  have flx: "fl x = of_int n * 2 powi (e - 52)"
    using False by (simp add: fl_def Let_def e_def q_def n_def)
  have e: "- 1074 \<le> e - 52" by (simp add: e_def)
  have "\<bar>x\<bar> < 2 powi (expo \<bar>x\<bar> + 1)" using expo_bounds [of "\<bar>x\<bar>"] False by simp
  also have "\<dots> \<le> 2 powi (e + 1)" by (rule power_int_increasing) (simp_all add: e_def)
  also have "\<dots> = 2 ^ 53 * q" by (simp add: q_def power_int_diff power_int_add)
  finally have "\<bar>x\<bar> / q < 2 ^ 53" using q0 by (simp add: field_simps)
  then have "\<bar>x / q\<bar> < 2 ^ 53" using q0 by simp
  moreover define r where "r = x / q"
  ultimately have b: "\<bar>r\<bar> < 2 ^ 53" by simp
  have "r \<le> of_int (2 ^ 53)" using b by simp
  then have u: "n \<le> 2 ^ 53" unfolding n_def r_def [symmetric] by (rule round_half_even_le)
  have "of_int (- (2 ^ 53)) \<le> r" using b by simp
  then have l: "- (2 ^ 53) \<le> n" unfolding n_def r_def [symmetric] by (rule round_half_even_ge)
  show ?thesis
  proof (cases "\<bar>n\<bar> < 2 ^ 53")
    case True
    then show ?thesis unfolding flx using e by (rule fl_representable)
  next
    case False
    with u l have n: "n = 2 ^ 53 \<or> n = - (2 ^ 53)" by linarith
    have pw: "(2::real) powi (e - 52 + 1) = 2 * 2 powi (e - 52)" by (rule powi_Suc)
    have h: "(of_int n :: real) * 2 powi (e - 52) = of_int (n div 2) * 2 powi (e - 52 + 1)"
      unfolding pw using n by auto
    have "\<bar>n div 2\<bar> < 2 ^ 53" using n by auto
    moreover have "- 1074 \<le> e - 52 + 1" using e by simp
    ultimately have "fl (of_int (n div 2) * 2 powi (e - 52 + 1)) = of_int (n div 2) * 2 powi (e - 52 + 1)"
      by (rule fl_representable)
    then show ?thesis unfolding flx h .
  qed
qed

lemma fl_nonneg: "0 \<le> x \<Longrightarrow> 0 \<le> fl x"
proof (cases "x = 0")
  case True
  then show ?thesis by (simp add: fl_def)
next
  case False
  assume "0 \<le> x"
  define q :: real where "q = 2 powi (max (expo \<bar>x\<bar>) (- 1022) - 52)"
  have "0 < q" by (simp add: q_def)
  with \<open>0 \<le> x\<close> have "of_int 0 \<le> x / q" by simp
  then have "0 \<le> round_half_even (x / q)" by (rule round_half_even_ge)
  with \<open>0 < q\<close> False show ?thesis by (simp add: fl_def Let_def q_def)
qed

lemma fmul_nonneg: "0 \<le> x \<Longrightarrow> 0 \<le> y \<Longrightarrow> 0 \<le> fmul x y"
  by (simp add: fmul_def fl_nonneg)

lemma fmul_of_int:
  "\<bar>a\<bar> < 2 ^ 53 \<Longrightarrow> \<bar>b\<bar> < 2 ^ 53 \<Longrightarrow> \<bar>a * b\<bar> < 2 ^ 53 \<Longrightarrow>
     fmul (of_int a) (of_int b) = of_int (a * b)"
  using fl_of_int [of "a * b"] by (simp add: fmul_def fl_of_int)

lemma fsub_of_int:
  "\<bar>a\<bar> < 2 ^ 53 \<Longrightarrow> \<bar>b\<bar> < 2 ^ 53 \<Longrightarrow> \<bar>a - b\<bar> < 2 ^ 53 \<Longrightarrow>
     fsub (of_int a) (of_int b) = of_int (a - b)"
  using fl_of_int [of "a - b"] by (simp add: fsub_def fl_of_int)

text \<open>For a whole number of days the cooldown period is computed exactly.\<close>

lemma minWait_whole_days:
  assumes c: "cooldown s = of_int n" and n: "0 \<le> n" "n * 86400000 < 2 ^ 53"
  shows "minWait s = of_int (n * 86400000)"
proof -
  have 1: "fmul (of_int n) (of_int 24) = of_int (n * 24)"
    using n by (intro fmul_of_int) simp_all
  have 2: "fmul (of_int (n * 24)) (of_int 3600) = of_int (n * 24 * 3600)"
    using n by (intro fmul_of_int) simp_all
  have 3: "fmul (of_int (n * 24 * 3600)) (of_int 1000) = of_int (n * 24 * 3600 * 1000)"
    using n by (intro fmul_of_int) simp_all
  have "minWait s = fmul (fmul (fmul (of_int n) (of_int 24)) (of_int 3600)) (of_int 1000)"
    by (simp add: minWait_def c)
  also have "\<dots> = of_int (n * 24 * 3600 * 1000)"
    unfolding 1 2 3 ..
  finally show ?thesis by simp
qed

section \<open>Rounding to two decimals\<close>

lemma round_half_away_nonneg:
  assumes "0 \<le> y"
  shows "round_half_away_from_zero y = Math_round y"
proof (cases "y = 0")
  case True
  then show ?thesis
    by (simp add: round_half_away_from_zero_def Math_round_def)
next
  case False
  with assms show ?thesis
    by (simp add: round_half_away_from_zero_def Math_round_def)
qed

lemma floor_half_shift: "\<lfloor>y + 1 / 2\<rfloor> = \<lfloor>(y::real) - 1 / 2\<rfloor> + 1"
proof -
  have "y + 1 / 2 = (y - 1 / 2) + of_int 1" by simp
  then have "\<lfloor>y + 1 / 2\<rfloor> = \<lfloor>(y - 1 / 2) + of_int 1\<rfloor>" by (rule arg_cong)
  also have "\<dots> = \<lfloor>y - 1 / 2\<rfloor> + 1" by (rule floor_add_int [symmetric])
  finally show ?thesis .
qed

lemma frac_half_iff: "frac (y::real) = 1 / 2 \<longleftrightarrow> y - 1 / 2 \<in> \<int>"
proof
  assume "frac y = 1 / 2"
  then have "y - 1 / 2 = of_int \<lfloor>y\<rfloor>" by (simp add: frac_def)
  then show "y - 1 / 2 \<in> \<int>" by simp
next
  assume "y - 1 / 2 \<in> \<int>"
  then obtain k :: int where k: "y - 1 / 2 = of_int k" by (auto elim: Ints_cases)
  then have y: "y = of_int k + 1 / 2" by simp
  have "\<lfloor>y\<rfloor> = k" unfolding y by (simp add: floor_eq_iff)
  then show "frac y = 1 / 2" unfolding frac_def using y by simp
qed

lemma round_half_away_neg:
  assumes "y < 0"
  shows "round_half_away_from_zero y = Math_round y - (if frac y = 1 / 2 then 1 else 0)"
proof -
  let ?w = "y - 1 / 2"
  have s: "sgn y = - 1" using assms by simp
  have a: "\<bar>y\<bar> = - y" using assms by simp
  have 1: "round_half_away_from_zero y = of_int \<lceil>?w\<rceil>"
    unfolding round_half_away_from_zero_def s a ceiling_def by simp
  have 2: "Math_round y = of_int (\<lfloor>?w\<rfloor> + 1)"
    unfolding Math_round_def floor_half_shift ..
  show ?thesis
    unfolding 1 2 frac_half_iff by (auto simp add: ceiling_altdef Ints_def)
qed

text \<open>The result of the rounding function is the double nearest to a multiple of 1/100.\<close>

lemma round2_hundredth:
  "\<exists>k::int. round2 x = fdiv (of_int k) 100 \<and>
            of_int k - 1 / 2 \<le> fmul x 100 \<and> fmul x 100 < of_int k + 1 / 2"
proof -
  let ?k = "\<lfloor>fmul x 100 + 1 / 2\<rfloor>"
  have "round2 x = fdiv (of_int ?k) 100"
    by (simp add: round2_def Math_round_def)
  moreover have "of_int ?k - 1 / 2 \<le> fmul x 100" by linarith
  moreover have "fmul x 100 < of_int ?k + 1 / 2" by linarith
  ultimately show ?thesis by blast
qed

text \<open>
  C9, as amended. With the product and the quotient those of the number type (doubles),
  the rounding function \<^const>\<open>round2\<close> equals round-half-away-from-zero applied to the
  product \<open>x * 100\<close>, divided by 100, for every \<open>x\<close> whose product is not a negative tie
  (negative and halfway between two integers), so in particular for every \<open>x \<ge> 0\<close>; at a
  negative tie it rounds towards plus infinity, to the integer one above.
\<close>

theorem round2_half_away:
  fixes x :: real
  defines "p \<equiv> fmul x 100"
  shows "(\<not> (p < 0 \<and> frac p = 1 / 2) \<longrightarrow> round2 x = spec_round2 x) \<and>
         (0 \<le> x \<longrightarrow> round2 x = spec_round2 x) \<and>
         (p < 0 \<and> frac p = 1 / 2 \<longrightarrow>
            round2 x = fdiv (round_half_away_from_zero p + 1) 100)"
proof (cases "0 \<le> p")
  case True
  then have "round_half_away_from_zero p = Math_round p"
    by (rule round_half_away_nonneg)
  with True show ?thesis by (simp add: round2_def spec_round2_def p_def)
next
  case False
  then have neg: "p < 0" by simp
  then have r: "round_half_away_from_zero p = Math_round p - (if frac p = 1 / 2 then 1 else 0)"
    by (rule round_half_away_neg)
  have "\<not> 0 \<le> x"
  proof
    assume "0 \<le> x"
    then have "0 \<le> fmul x 100" by (rule fmul_nonneg) simp
    with neg show False by (simp add: p_def)
  qed
  with neg r show ?thesis
    by (simp add: round2_def spec_round2_def p_def [symmetric])
qed

theorem round2_half_away_witness:
  "round2 (1 / 8) = spec_round2 (1 / 8) \<and> toString (round2 (1 / 8)) = ''0.13'' \<and>
   round2 (1005 / 1000) = spec_round2 (1005 / 1000) \<and> toString (round2 (1005 / 1000)) = ''1'' \<and>
   round2 (1115 / 1000) = spec_round2 (1115 / 1000) \<and> toString (round2 (1115 / 1000)) = ''1.12'' \<and>
   (fmul (- 1 / 8) 100 < 0 \<and> frac (fmul (- 1 / 8) 100) = 1 / 2) \<and>
   round2 (- 1 / 8) = fdiv (round_half_away_from_zero (fmul (- 1 / 8) 100) + 1) 100 \<and>
   toString (round2 (- 1 / 8)) = ''-0.12''"
proof -
  have a: "(0::real) \<le> 1 / 8" "(0::real) \<le> 1005 / 1000" "(0::real) \<le> 1115 / 1000"
    by simp_all
  have p: "fmul (- 1 / 8) 100 = - 25 / 2"
    by (simp add: number_defs Let_def)
  have t: "fmul (- 1 / 8) 100 < 0 \<and> frac (fmul (- 1 / 8) 100) = 1 / 2"
    unfolding p by (simp add: frac_def)
  have s1: "toString (round2 (1 / 8)) = ''0.13''"
    by (simp add: number_defs Let_def)
  have s2: "toString (round2 (1005 / 1000)) = ''1''"
    by (simp add: number_defs Let_def)
  have s3: "toString (round2 (1115 / 1000)) = ''1.12''"
    by (simp add: number_defs Let_def)
  have s4: "toString (round2 (- 1 / 8)) = ''-0.12''"
    by (simp add: number_defs Let_def)
  show ?thesis
    using round2_half_away [of "1 / 8"] round2_half_away [of "1005 / 1000"]
      round2_half_away [of "1115 / 1000"] round2_half_away [of "- 1 / 8"] a t s1 s2 s3 s4
    by blast
qed

text \<open>
  C9, as stated, fails on a negative tie: \<open>-0.125 * 100 = -12.5\<close> is rounded to \<open>-12\<close> by
  \<^verbatim>\<open>Math.round\<close>, and to \<open>-13\<close> by round-half-away-from-zero.
\<close>

theorem round2_half_away_counterexample:
  "toString (round2 (- 1 / 8)) = ''-0.12'' \<and> toString (spec_round2 (- 1 / 8)) = ''-0.13'' \<and>
   round2 (- 1 / 8) \<noteq> spec_round2 (- 1 / 8)"
proof -
  have 1: "toString (round2 (- 1 / 8)) = ''-0.12''"
    by (simp add: number_defs Let_def)
  have 2: "toString (spec_round2 (- 1 / 8)) = ''-0.13''"
    by (simp add: spec_round2_def round_half_away_from_zero_def number_defs Let_def)
  from 1 2 have "round2 (- 1 / 8) \<noteq> spec_round2 (- 1 / 8)"
    by auto
  with 1 2 show ?thesis by simp
qed

section \<open>The cooldown rule\<close>

lemma newest_None: "newest rs = None \<longleftrightarrow> rs = []"
  by (induction rs) (auto split: option.splits)

lemma newest_Some:
  "newest rs = Some r \<Longrightarrow> r \<in> set rs \<and> requestDate r = Max (requestDate ` set rs)"
proof (induction rs arbitrary: r)
  case Nil
  then show ?case by simp
next
  case (Cons x xs)
  show ?case
  proof (cases "newest xs")
    case None
    then have "xs = []" by (simp add: newest_None)
    with Cons.prems show ?thesis by simp
  next
    case (Some r')
    then have ih: "r' \<in> set xs" "requestDate r' = Max (requestDate ` set xs)"
      using Cons.IH by auto
    have ne: "xs \<noteq> []" using ih(1) by auto
    show ?thesis
    proof (cases "requestDate x < requestDate r'")
      case True
      with Some Cons.prems have "r = r'" by simp
      with ih True ne show ?thesis by (simp add: max_def)
    next
      case False
      with Some Cons.prems have "r = x" by simp
      with ih False ne show ?thesis by (simp add: max_def)
    qed
  qed
qed

lemma toString_0: "toString 0 = ''0''"
  by (simp add: toString_def show_nat.simps digit_def)

lemma round2_tiny: "round2 (fdiv 1 (24 * 3600 * 1000)) = 0"
  by (simp add: number_defs Let_def)

lemma fl_minWait: "fl (minWait s) = minWait s"
  by (simp add: minWait_def fmul_def fl_idem)

lemma fl_elapsedMs: "fl (elapsedMs now r) = elapsedMs now r"
  by (simp add: elapsedMs_def fsub_def fl_idem)

lemma cooldown_rule_Some:
  "cooldown_rule now s (Some r) =
     (if elapsedMs now r < minWait s
      then [''You need to wait '' @
            toString (round2 (fdiv (fsub (minWait s) (elapsedMs now r)) (24 * 3600 * 1000))) @
            '' days before you can request again'']
      else [])"
  by (simp add: cooldown_rule_def remainingDays_def)

text \<open>
  C3, as amended. With \<open>prior\<close> the stored requests of the requester to the target, the
  elapsed time being that since the most recent of them, and the cooldown period as the handler
  computes it, the product \<open>cooldown * 24 * 3600 * 1000\<close> taken in doubles (\<^const>\<open>minWait\<close>;
  it is the exact number of milliseconds for a whole number of days): the cooldown rule
  emits nothing when there is no prior request, and nothing when the elapsed time is at
  least that period; otherwise it emits exactly one reason, "You need to wait \<open>d\<close> days
  before you can request again", where \<open>d\<close> is \<^const>\<open>round2\<close> of the remaining time divided
  by the milliseconds of a day, computed in doubles: the double nearest to \<open>k / 100\<close> for
  the integer \<open>k\<close> nearest to the remaining days times 100.
\<close>

theorem cooldown_rule_outputs:
  fixes rs :: "request list" and uid t :: string and now n :: int and s :: settings
  defines "prior \<equiv> filter (\<lambda>r. user r = uid \<and> target r = t) rs"
  defines "out \<equiv> cooldown_rule now s (findOne_newest (\<lambda>r. user r = uid \<and> target r = t) rs)"
  defines "lastDate \<equiv> Max (requestDate ` set prior)"
  defines "elapsed \<equiv> fsub (of_int now) (of_int lastDate)"
  defines "days \<equiv> fdiv (fsub (minWait s) elapsed) (24 * 3600 * 1000)"
  shows "(prior = [] \<longrightarrow> out = []) \<and>
         (prior \<noteq> [] \<and> minWait s \<le> elapsed \<longrightarrow> out = []) \<and>
         (prior \<noteq> [] \<and> elapsed < minWait s \<longrightarrow>
            out = [''You need to wait '' @ toString (round2 days) @
                   '' days before you can request again''] \<and>
            (\<exists>k::int. round2 days = fdiv (of_int k) 100 \<and>
               of_int k - 1 / 2 \<le> fmul days 100 \<and> fmul days 100 < of_int k + 1 / 2)) \<and>
         (\<bar>now\<bar> < 2 ^ 53 \<and> \<bar>lastDate\<bar> < 2 ^ 53 \<and> \<bar>now - lastDate\<bar> < 2 ^ 53 \<longrightarrow>
            elapsed = of_int (now - lastDate)) \<and>
         (cooldown s = of_int n \<and> 0 \<le> n \<and> n * 86400000 < 2 ^ 53 \<longrightarrow>
            minWait s = cooldown s * 24 * 3600 * 1000)"
proof -
  have whole: "cooldown s = of_int n \<and> 0 \<le> n \<and> n * 86400000 < 2 ^ 53 \<longrightarrow>
                 minWait s = cooldown s * 24 * 3600 * 1000"
    using minWait_whole_days [of s n] by simp
  have exact: "\<bar>now\<bar> < 2 ^ 53 \<and> \<bar>lastDate\<bar> < 2 ^ 53 \<and> \<bar>now - lastDate\<bar> < 2 ^ 53 \<longrightarrow>
                 elapsed = of_int (now - lastDate)"
    unfolding elapsed_def using fsub_of_int [of now lastDate] by simp
  have rule: "(prior = [] \<longrightarrow> out = []) \<and>
         (prior \<noteq> [] \<and> minWait s \<le> elapsed \<longrightarrow> out = []) \<and>
         (prior \<noteq> [] \<and> elapsed < minWait s \<longrightarrow>
            out = [''You need to wait '' @ toString (round2 days) @
                   '' days before you can request again''] \<and>
            (\<exists>k::int. round2 days = fdiv (of_int k) 100 \<and>
               of_int k - 1 / 2 \<le> fmul days 100 \<and> fmul days 100 < of_int k + 1 / 2))"
  proof (cases "prior = []")
    case True
    then have "findOne_newest (\<lambda>r. user r = uid \<and> target r = t) rs = None"
      by (simp add: findOne_newest_def prior_def)
    with True show ?thesis by (simp add: out_def cooldown_rule_def)
  next
    case False
    then obtain r where r: "newest prior = Some r"
      by (cases "newest prior") (simp_all add: newest_None)
    have d: "requestDate r = lastDate"
      unfolding lastDate_def using newest_Some [OF r] by simp
    have e: "elapsedMs now r = elapsed"
      by (simp add: elapsedMs_def elapsed_def d)
    have "out = cooldown_rule now s (Some r)"
      using r by (simp add: out_def findOne_newest_def prior_def)
    then show ?thesis
      using False round2_hundredth [of days]
      by (simp add: cooldown_rule_Some e days_def)
  qed
  show ?thesis
    by (rule conjI [OF conjunct1 [OF rule] conjI [OF conjunct1 [OF conjunct2 [OF rule]]
          conjI [OF conjunct2 [OF conjunct2 [OF rule]] conjI [OF exact whole]]]])
qed

theorem cooldown_rule_outputs_witness:
  "cooldown_rule 1000 (ex_queue ''bob'' ''full'' [''Taiko''] 2)
     (findOne_newest (\<lambda>r. user r = ''9'' \<and> target r = ''bob'') []) = [] \<and>
   cooldown_rule 604800500 (ex_queue ''bob'' ''full'' [''Taiko''] 2)
     (findOne_newest (\<lambda>r. user r = ''9'' \<and> target r = ''bob'')
        [ex_stored ''bob'' 100 False, ex_stored ''bob'' 500 False]) = [] \<and>
   cooldown_rule 592272500 (ex_queue ''bob'' ''full'' [''Taiko''] 2)
     (findOne_newest (\<lambda>r. user r = ''9'' \<and> target r = ''bob'')
        [ex_stored ''bob'' 100 False, ex_stored ''bob'' 500 False])
     = [''You need to wait 0.14 days before you can request again''] \<and>
   fsub (of_int 592272500) (of_int 500) = 592272000 \<and>
   minWait (ex_queue ''bob'' ''full'' [''Taiko''] 2) = 604800000"
proof -
  let ?s = "ex_queue ''bob'' ''full'' [''Taiko''] 2"
  let ?rs = "[ex_stored ''bob'' 100 False, ex_stored ''bob'' 500 False]"
  let ?P = "\<lambda>r. user r = ''9'' \<and> target r = ''bob''"
  have f: "filter ?P ?rs = ?rs" "Max (requestDate ` set ?rs) = 500"
    by (simp_all add: ex_stored_def)
  have c: "cooldown ?s = of_int 7 \<and> (0::int) \<le> 7 \<and> (7::int) * 86400000 < 2 ^ 53"
    by (simp add: ex_queue_def)
  have m: "minWait ?s = 604800000"
    using cooldown_rule_outputs [of "''9''" "''bob''" "[]" 1000 ?s 7] c
    by (simp add: ex_queue_def)
  have e1: "fsub (of_int 604800500) (of_int 500) = 604800000"
    using cooldown_rule_outputs [of "''9''" "''bob''" ?rs 604800500 ?s 7]
    unfolding f by simp
  have e2: "fsub (of_int 592272500) (of_int 500) = 592272000"
    using cooldown_rule_outputs [of "''9''" "''bob''" ?rs 592272500 ?s 7]
    unfolding f by simp
  have d: "toString (round2 (fdiv (fsub 604800000 592272000) (24 * 3600 * 1000))) = ''0.14''"
    by (simp add: number_defs Let_def)
  have 1: "cooldown_rule 1000 ?s (findOne_newest ?P []) = []"
    using cooldown_rule_outputs [of "''9''" "''bob''" "[]" 1000 ?s 7] by simp
  have 2: "cooldown_rule 604800500 ?s (findOne_newest ?P ?rs) = []"
    using cooldown_rule_outputs [of "''9''" "''bob''" ?rs 604800500 ?s 7]
    unfolding f e1 m by simp
  have 3: "cooldown_rule 592272500 ?s (findOne_newest ?P ?rs)
           = [''You need to wait 0.14 days before you can request again'']"
    using cooldown_rule_outputs [of "''9''" "''bob''" ?rs 592272500 ?s 7] d
    unfolding f e2 m by simp
  from 1 2 3 e2 m show ?thesis by simp
qed

text \<open>
  C3, as stated, fails for a cooldown of 0.09 days and a prior request 7776000 ms ago:
  the elapsed time is the cooldown times 24 * 3600 * 1000 (and not less than that product
  for the double nearest to 0.09), yet a reason is emitted, because the period the
  handler computes is 7776000.000000001 ms.
\<close>

theorem cooldown_rule_period_counterexample:
  "elapsedMs 7776100 (ex_stored ''bob'' 100 False) = 7776000 \<and>
   cooldown ((ex_queue ''bob'' ''full'' [''Taiko''] 2)\<lparr>cooldown := 9 / 100\<rparr>)
     * 24 * 3600 * 1000 = 7776000 \<and>
   fl (cooldown ((ex_queue ''bob'' ''full'' [''Taiko''] 2)\<lparr>cooldown := 9 / 100\<rparr>))
     * 24 * 3600 * 1000 \<le> 7776000 \<and>
   7776000 < minWait ((ex_queue ''bob'' ''full'' [''Taiko''] 2)\<lparr>cooldown := 9 / 100\<rparr>) \<and>
   cooldown_rule 7776100 ((ex_queue ''bob'' ''full'' [''Taiko''] 2)\<lparr>cooldown := 9 / 100\<rparr>)
     (Some (ex_stored ''bob'' 100 False))
     = [''You need to wait 0 days before you can request again'']"
  by (simp add: cooldown_rule_def remainingDays_def elapsedMs_def minWait_def
        ex_queue_def ex_stored_def number_defs Let_def)

text \<open>
  C6, as amended. Cooldown boundary, with the cooldown period as the handler computes it
  (\<^const>\<open>minWait\<close>, the product \<open>cooldown * 24 * 3600 * 1000\<close> taken in doubles, which is the
  exact number of milliseconds for a whole number of days): when the time elapsed since
  the most recent prior request equals that period, no cooldown reason is emitted; when
  it is 1 ms less, a cooldown reason is emitted and the remaining wait it reports is
  0 days: the remainder of 1/86400000 day is positive, but \<^const>\<open>round2\<close> takes it to 0.
\<close>

theorem cooldown_boundary:
  "(elapsedMs now r = minWait s \<longrightarrow> cooldown_rule now s (Some r) = []) \<and>
   (elapsedMs now r = minWait s - 1 \<longrightarrow>
      cooldown_rule now s (Some r) = [''You need to wait 0 days before you can request again''] \<and>
      remainingDays now s r = 0) \<and>
   (cooldown s = of_int n \<and> 0 \<le> n \<and> n * 86400000 < 2 ^ 53 \<longrightarrow>
      minWait s = cooldown s * 24 * 3600 * 1000)"
proof -
  have whole: "cooldown s = of_int n \<and> 0 \<le> n \<and> n * 86400000 < 2 ^ 53 \<longrightarrow>
                 minWait s = cooldown s * 24 * 3600 * 1000"
    using minWait_whole_days [of s n] by simp
  have zero: "remainingDays now s r = 0" if "elapsedMs now r = minWait s - 1"
  proof -
    have "fsub (minWait s) (elapsedMs now r) = fl (minWait s - elapsedMs now r)"
      by (simp add: fsub_def fl_minWait fl_elapsedMs)
    also have "\<dots> = fl (of_int 1)" using that by simp
    also have "\<dots> = 1" by (subst fl_of_int) simp_all
    finally show ?thesis
      unfolding remainingDays_def using round2_tiny by simp
  qed
  have less: "elapsedMs now r = minWait s - 1 \<longrightarrow>
      cooldown_rule now s (Some r) = [''You need to wait 0 days before you can request again''] \<and>
      remainingDays now s r = 0"
  proof
    assume a: "elapsedMs now r = minWait s - 1"
    then have "elapsedMs now r < minWait s" by simp
    then have "cooldown_rule now s (Some r)
                 = [''You need to wait '' @ toString (remainingDays now s r) @
                    '' days before you can request again'']"
      by (simp add: cooldown_rule_def)
    then show "cooldown_rule now s (Some r)
                 = [''You need to wait 0 days before you can request again''] \<and>
               remainingDays now s r = 0"
      unfolding zero [OF a] toString_0 by simp
  qed
  have equal: "elapsedMs now r = minWait s \<longrightarrow> cooldown_rule now s (Some r) = []"
    by (simp add: cooldown_rule_def)
  show ?thesis
    by (rule conjI [OF equal conjI [OF less whole]])
qed

theorem cooldown_boundary_witness:
  "elapsedMs 604800100 (ex_stored ''bob'' 100 False) = 604800000 \<and>
   minWait (ex_queue ''bob'' ''full'' [''Taiko''] 2) = 604800000 \<and>
   cooldown_rule 604800100 (ex_queue ''bob'' ''full'' [''Taiko''] 2)
     (Some (ex_stored ''bob'' 100 False)) = [] \<and>
   elapsedMs 604800099 (ex_stored ''bob'' 100 False) = 604799999 \<and>
   cooldown_rule 604800099 (ex_queue ''bob'' ''full'' [''Taiko''] 2)
     (Some (ex_stored ''bob'' 100 False))
     = [''You need to wait 0 days before you can request again''] \<and>
   remainingDays 604800099 (ex_queue ''bob'' ''full'' [''Taiko''] 2) (ex_stored ''bob'' 100 False) = 0"
proof -
  let ?s = "ex_queue ''bob'' ''full'' [''Taiko''] 2"
  let ?r = "ex_stored ''bob'' 100 False"
  note at_end = cooldown_boundary [of 604800100 ?r ?s 7]
  note before_end = cooldown_boundary [of 604800099 ?r ?s 7]
  have c: "cooldown ?s = of_int 7 \<and> (0::int) \<le> 7 \<and> (7::int) * 86400000 < 2 ^ 53"
    by (simp add: ex_queue_def)
  have m: "minWait ?s = 604800000"
    using conjunct2 [OF conjunct2 [OF at_end]] c by (simp add: ex_queue_def)
  have e1: "elapsedMs 604800100 ?r = 604800000"
    using fsub_of_int [of 604800100 100] by (simp add: elapsedMs_def ex_stored_def)
  have e2: "elapsedMs 604800099 ?r = 604799999"
    using fsub_of_int [of 604800099 100] by (simp add: elapsedMs_def ex_stored_def)
  have 1: "cooldown_rule 604800100 ?s (Some ?r) = []"
    using conjunct1 [OF at_end] unfolding e1 m by simp
  have 2: "cooldown_rule 604800099 ?s (Some ?r)
             = [''You need to wait 0 days before you can request again''] \<and>
           remainingDays 604800099 ?s ?r = 0"
    using conjunct1 [OF conjunct2 [OF before_end]] unfolding e2 m by simp
  show ?thesis
    by (rule conjI [OF e1 conjI [OF m conjI [OF 1 conjI [OF e2 2]]]])
qed

text \<open>
  C6, as stated, fails twice. With a cooldown of 7 days, a prior request at time 100 and
  the clock at 604800099 (1 ms before the cooldown ends), the reason is emitted and the
  remaining wait it reports is not greater than 0. With a cooldown of 0.09 days and
  exactly 0.09 * 24 * 3600 * 1000 ms elapsed, a reason is still emitted, because the
  handler's period is 7776000.000000001 ms.
\<close>

theorem cooldown_boundary_counterexample:
  "elapsedMs 604800099 (ex_stored ''bob'' 100 False)
     = cooldown (ex_queue ''bob'' ''full'' [''Taiko''] 2) * 24 * 3600 * 1000 - 1 \<and>
   cooldown_rule 604800099 (ex_queue ''bob'' ''full'' [''Taiko''] 2)
     (Some (ex_stored ''bob'' 100 False))
     = [''You need to wait 0 days before you can request again''] \<and>
   \<not> 0 < remainingDays 604800099 (ex_queue ''bob'' ''full'' [''Taiko''] 2)
           (ex_stored ''bob'' 100 False) \<and>
   elapsedMs 7776100 (ex_stored ''bob'' 100 False)
     = cooldown ((ex_queue ''bob'' ''full'' [''Taiko''] 2)\<lparr>cooldown := 9 / 100\<rparr>)
       * 24 * 3600 * 1000 \<and>
   cooldown_rule 7776100 ((ex_queue ''bob'' ''full'' [''Taiko''] 2)\<lparr>cooldown := 9 / 100\<rparr>)
     (Some (ex_stored ''bob'' 100 False))
     = [''You need to wait 0 days before you can request again'']"
  by (simp add: cooldown_rule_def remainingDays_def elapsedMs_def minWait_def
        ex_queue_def ex_stored_def number_defs Let_def)

section \<open>The capacity check\<close>

lemma spec_pendingCount_le: "spec_pendingCount t rs \<le> numPending t rs"
proof -
  have "spec_pendingCount t rs
          = length (filter (\<lambda>r. \<not> archived r) (filter (\<lambda>r. status r = ''Pending'' \<and> target r = t) rs))"
    by (simp add: spec_pendingCount_def conj_commute conj_left_commute)
  also have "\<dots> \<le> length (filter (\<lambda>r. status r = ''Pending'' \<and> target r = t) rs)"
    by (rule length_filter_le)
  finally show ?thesis by (simp add: numPending_def countDocuments_def)
qed

text \<open>
  C4, as amended. Capacity boundary, with the pending count the handler uses, the number
  of the target's stored requests with status "Pending", archived ones included: when the
  handler accepts a submission, the request is appended to the store; if that count
  before the acceptance is \<open>maxPending - 1\<close>, the target's open flag is false afterwards
  (so also if the count of the non-archived ones is \<open>maxPending - 1\<close>), and if it is less
  than \<open>maxPending - 1\<close> the settings are left as they were. When nothing is accepted (the
  check runs only after a request was saved), the store is unchanged.
\<close>

theorem capacity_boundary:
  assumes "post_request osuApi u b now st = Inr (resp, st')"
      and "findOne (\<lambda>x. owner x = req_target b) (Settings_coll st) = Some s"
  shows "(accepted resp = None \<longrightarrow> st' = st) \<and>
         (accepted resp = Some rq \<longrightarrow>
            Request_coll st' = Request_coll st @ [rq] \<and>
            (int (numPending (req_target b) (Request_coll st)) = maxPending s - 1 \<longrightarrow>
               map_option open_flag
                 (findOne (\<lambda>x. owner x = req_target b) (Settings_coll st')) = Some False) \<and>
            (int (numPending (req_target b) (Request_coll st)) < maxPending s - 1 \<longrightarrow>
               Settings_coll st' = Settings_coll st) \<and>
            (int (spec_pendingCount (req_target b) (Request_coll st)) = maxPending s - 1 \<longrightarrow>
               map_option open_flag
                 (findOne (\<lambda>x. owner x = req_target b) (Settings_coll st')) = Some False))"
  using assms(1)
proof (cases rule: post_request_cases)
  case invalid
  then show ?thesis by simp
next
  case (rejected first rest s' errors)
  then show ?thesis by simp
next
  case (accepted first rest s')
  have s': "s' = s" using accepted(2) assms(2) by simp
  let ?rq = "new_Request (mk_map first (first # rest) b) u now b"
  have n: "int (numPending (req_target b) (Request_coll st @ [?rq])) =
             int (numPending (req_target b) (Request_coll st)) + 1"
    by (simp add: numPending_snoc new_Request_pending)
  show ?thesis
    unfolding accepted(3,4) s'
    using closed_after_update [OF assms(2)]
      spec_pendingCount_le [of "req_target b" "Request_coll st"]
    by (auto simp add: Request_coll_save_and_close Settings_coll_save_and_close n)
qed


theorem capacity_boundary_witness:
  "(\<exists>resp st' rq.
      post_request ex_osuApi ex_alice (ex_body ''77'' None ''carol'') 1000 ex_db = Inr (resp, st') \<and>
      accepted resp = Some rq \<and> Request_coll st' = Request_coll ex_db @ [rq] \<and>
      int (numPending ''carol'' (Request_coll ex_db)) = 1 - 1 \<and>
      int (spec_pendingCount ''carol'' (Request_coll ex_db)) = 1 - 1 \<and>
      map_option open_flag (findOne (\<lambda>x. owner x = ''carol'') (Settings_coll st')) = Some False) \<and>
   (\<exists>resp st' rq.
      post_request ex_osuApi ex_alice (ex_body ''88'' None ''erin'') 1000 ex_db = Inr (resp, st') \<and>
      accepted resp = Some rq \<and> Request_coll st' = Request_coll ex_db @ [rq] \<and>
      int (numPending ''erin'' (Request_coll ex_db)) < 2 - 1 \<and>
      Settings_coll st' = Settings_coll ex_db) \<and>
   (\<exists>resp.
      post_request ex_osuApi ex_alice (ex_body ''77'' None ''bob'') 1000 ex_db = Inr (resp, ex_db) \<and>
      accepted resp = None)"
proof -
  let ?c = "ex_body ''77'' None ''carol''"
  let ?rc = "new_Request (mk_map (ex_beatmap ''Hard'' (3456 / 1000) ''Pending'')
     [ex_beatmap ''Hard'' (3456 / 1000) ''Pending'', ex_beatmap ''Easy'' (3 / 2) ''Pending''] ?c)
     ex_alice 1000 ?c"
  let ?sc = "ex_queue ''carol'' ''modder'' [''Standard'', ''Taiko''] 1"
  let ?e = "ex_body ''88'' None ''erin''"
  let ?re = "new_Request (mk_map (ex_beatmap ''Normal'' 2 ''Ranked'')
     [ex_beatmap ''Normal'' 2 ''Ranked''] ?e) ex_alice 1000 ?e"
  let ?se = "ex_queue ''erin'' ''modder'' [''Standard''] 2"
  let ?b = "ex_body ''77'' None ''bob''"
  let ?sb = "ex_queue ''bob'' ''full'' [''Taiko''] 2"
  let ?mb = "mk_map (ex_beatmap ''Hard'' (3456 / 1000) ''Pending'')
     [ex_beatmap ''Hard'' (3456 / 1000) ''Pending'', ex_beatmap ''Easy'' (3 / 2) ''Pending''] ?b"
  have c1: "post_request ex_osuApi ex_alice ?c 1000 ex_db
            = Inr (Resp_request ?rc [], save_and_close ?rc ?sc ''carol'' ex_db)"
    by (simp add: handler_defs ex_defs Let_def)
  have c2: "findOne (\<lambda>x. owner x = req_target ?c) (Settings_coll ex_db) = Some ?sc"
    by (simp add: findOne_def ex_defs)
  have c3: "int (numPending (req_target ?c) (Request_coll ex_db)) = maxPending ?sc - 1"
    by (simp add: numPending_def countDocuments_def ex_defs)
  have c4: "int (spec_pendingCount (req_target ?c) (Request_coll ex_db)) = maxPending ?sc - 1"
    by (simp add: spec_pendingCount_def ex_defs)
  have e1: "post_request ex_osuApi ex_alice ?e 1000 ex_db
            = Inr (Resp_request ?re [], save_and_close ?re ?se ''erin'' ex_db)"
    by (simp add: handler_defs ex_defs Let_def)
  have e2: "findOne (\<lambda>x. owner x = req_target ?e) (Settings_coll ex_db) = Some ?se"
    by (simp add: findOne_def ex_defs)
  have e3: "int (numPending (req_target ?e) (Request_coll ex_db)) < maxPending ?se - 1"
    by (simp add: numPending_def countDocuments_def ex_defs)
  have b1: "post_request ex_osuApi ex_alice ?b 1000 ex_db
            = Inr (Resp_map ?mb [''Only Taiko maps are accepted''], ex_db)"
    by (simp add: handler_defs ex_defs Let_def)
  have b2: "findOne (\<lambda>x. owner x = req_target ?b) (Settings_coll ex_db) = Some ?sb"
    by (simp add: findOne_def ex_defs)
  have tc: "req_target ?c = ''carol''" and te: "req_target ?e = ''erin''"
    and mc: "maxPending ?sc = 1" and me: "maxPending ?se = 2"
    by (simp_all add: ex_defs)
  have "accepted (Resp_request ?rc []) = Some ?rc \<and>
        Request_coll (save_and_close ?rc ?sc ''carol'' ex_db) = Request_coll ex_db @ [?rc] \<and>
        int (numPending ''carol'' (Request_coll ex_db)) = 1 - 1 \<and>
        int (spec_pendingCount ''carol'' (Request_coll ex_db)) = 1 - 1 \<and>
        map_option open_flag (findOne (\<lambda>x. owner x = ''carol'')
          (Settings_coll (save_and_close ?rc ?sc ''carol'' ex_db))) = Some False"
    using capacity_boundary [OF c1 c2, of ?rc] c3 c4 unfolding tc mc by simp
  with c1 have 1: "\<exists>resp st' rq.
      post_request ex_osuApi ex_alice ?c 1000 ex_db = Inr (resp, st') \<and>
      accepted resp = Some rq \<and> Request_coll st' = Request_coll ex_db @ [rq] \<and>
      int (numPending ''carol'' (Request_coll ex_db)) = 1 - 1 \<and>
      int (spec_pendingCount ''carol'' (Request_coll ex_db)) = 1 - 1 \<and>
      map_option open_flag (findOne (\<lambda>x. owner x = ''carol'') (Settings_coll st')) = Some False"
    by blast
  have "accepted (Resp_request ?re []) = Some ?re \<and>
        Request_coll (save_and_close ?re ?se ''erin'' ex_db) = Request_coll ex_db @ [?re] \<and>
        int (numPending ''erin'' (Request_coll ex_db)) < 2 - 1 \<and>
        Settings_coll (save_and_close ?re ?se ''erin'' ex_db) = Settings_coll ex_db"
    using capacity_boundary [OF e1 e2, of ?re] e3 unfolding te me by simp
  with e1 have 2: "\<exists>resp st' rq.
      post_request ex_osuApi ex_alice ?e 1000 ex_db = Inr (resp, st') \<and>
      accepted resp = Some rq \<and> Request_coll st' = Request_coll ex_db @ [rq] \<and>
      int (numPending ''erin'' (Request_coll ex_db)) < 2 - 1 \<and>
      Settings_coll st' = Settings_coll ex_db"
    by blast
  have "accepted (Resp_map ?mb [''Only Taiko maps are accepted'']) = None"
    using capacity_boundary [OF b1 b2, of ?rc] by simp
  with b1 have 3: "\<exists>resp.
      post_request ex_osuApi ex_alice ?b 1000 ex_db = Inr (resp, ex_db) \<and> accepted resp = None"
    by blast
  from 1 2 3 show ?thesis by (intro conjI)
qed

text \<open>
  C4, as stated, fails for the pending count of the specification (not archived, status
  "Pending"): \<open>dave\<close>'s queue holds one archived request with status "Pending", so that
  count is 0, less than \<open>maxPending - 1 = 1\<close>; yet after one accepted submission the
  queue is closed, because the handler counts the archived request as well.
\<close>

theorem capacity_boundary_counterexample:
  "int (spec_pendingCount ''dave'' (Request_coll ex_db))
     < maxPending (ex_queue ''dave'' ''modder'' [''Standard''] 2) - 1 \<and>
   queue_open ''dave'' ex_db = Some True \<and>
   post_request ex_osuApi ex_alice (ex_body ''88'' None ''dave'') 1000 ex_db
     = Inr (Resp_request
              (new_Request (mk_map (ex_beatmap ''Normal'' 2 ''Ranked'')
                 [ex_beatmap ''Normal'' 2 ''Ranked''] (ex_body ''88'' None ''dave''))
                 ex_alice 1000 (ex_body ''88'' None ''dave'')) [],
            save_and_close
              (new_Request (mk_map (ex_beatmap ''Normal'' 2 ''Ranked'')
                 [ex_beatmap ''Normal'' 2 ''Ranked''] (ex_body ''88'' None ''dave''))
                 ex_alice 1000 (ex_body ''88'' None ''dave''))
              (ex_queue ''dave'' ''modder'' [''Standard''] 2) ''dave'' ex_db) \<and>
   queue_open ''dave''
     (save_and_close
        (new_Request (mk_map (ex_beatmap ''Normal'' 2 ''Ranked'')
           [ex_beatmap ''Normal'' 2 ''Ranked''] (ex_body ''88'' None ''dave''))
           ex_alice 1000 (ex_body ''88'' None ''dave''))
        (ex_queue ''dave'' ''modder'' [''Standard''] 2) ''dave'' ex_db) = Some False"
  by (simp add: queue_open_def spec_pendingCount_def handler_defs ex_defs Let_def)

section \<open>A failed lookup\<close>

text \<open>
  C5. For every submitted source id whose metadata lookup fails or returns an empty
  result, the handler answers with the empty candidate and exactly one reason, "Invalid
  beatmap ID", and the store is left as it was: no request is saved.
\<close>

theorem lookup_failure:
  "provider (req_id b) = Lookup_failed \<or> provider (req_id b) = Lookup_result [] \<longrightarrow>
     post_request (getBeatmaps provider) u b now st
       = Inr (Resp_empty [''Invalid beatmap ID''], st)"
  by (auto simp add: post_request_def getBeatmaps_def)

theorem lookup_failure_witness:
  "ex_provider (req_id (ex_body ''99'' None ''dave'')) = Lookup_failed \<and>
   post_request (getBeatmaps ex_provider) ex_alice (ex_body ''99'' None ''dave'') 1000 ex_db
     = Inr (Resp_empty [''Invalid beatmap ID''], ex_db) \<and>
   ex_provider (req_id (ex_body ''empty'' None ''dave'')) = Lookup_result [] \<and>
   post_request (getBeatmaps ex_provider) ex_alice (ex_body ''empty'' None ''dave'') 1000 ex_db
     = Inr (Resp_empty [''Invalid beatmap ID''], ex_db)"
  using lookup_failure [of ex_provider "ex_body ''99'' None ''dave''" ex_alice 1000 ex_db]
        lookup_failure [of ex_provider "ex_body ''empty'' None ''dave''" ex_alice 1000 ex_db]
  by (simp add: ex_provider_def ex_body_def)

section \<open>The stored request\<close>

text \<open>
  C7, as amended. Every request saved on acceptance is the last of the store and has the
  candidate's fields other than its review status (source id, title, artist, creator, bpm,
  length, comment, m4m, difficulties, image), the status "Pending" in place of the
  candidate's review status, the requester's user id, the time of the submission, the
  target, the archived flag false, and no feedback.
\<close>

theorem stored_request_fields:
  fixes first :: beatmap and rest :: "beatmap list" and b :: body
  defines "m \<equiv> mk_map first (first # rest) b"
  assumes run: "post_request osuApi u b now st = Inr (resp, st')"
      and acc: "accepted resp = Some rq"
      and look: "osuApi (req_id b) = Some (first # rest)"
  shows "Request_coll st' = Request_coll st @ [rq] \<and>
         mapId rq = mapId m \<and> title rq = title m \<and> artist rq = artist m \<and>
         creator rq = creator m \<and> bpm rq = bpm m \<and> length_fmt rq = length_fmt m \<and>
         comment rq = comment m \<and> m4m rq = m4m m \<and> diffs rq = diffs m \<and>
         image rq = image m \<and> status rq = ''Pending'' \<and> user rq = userid u \<and>
         requestDate rq = now \<and> target rq = req_target b \<and> archived rq = False \<and>
         feedback rq = None"
  using run
proof (cases rule: post_request_cases)
  case invalid
  with acc show ?thesis by simp
next
  case (rejected first' rest' s errors)
  with acc show ?thesis by simp
next
  case (accepted first' rest' s)
  from accepted(1) look have eq: "first' = first" "rest' = rest"
    by simp_all
  from accepted(3) acc have "rq = new_Request m u now b"
    by (simp add: m_def eq)
  with accepted(4) show ?thesis
    by (simp add: new_Request_def Request_coll_save_and_close eq m_def)
qed

theorem stored_request_fields_witness:
  "\<exists>resp st' rq.
     post_request ex_osuApi ex_alice (ex_body ''88'' (Some ''hello'') ''erin'') 1000 ex_db
       = Inr (resp, st') \<and>
     accepted resp = Some rq \<and> Request_coll st' = Request_coll ex_db @ [rq] \<and>
     title rq = ''Song'' \<and> length_fmt rq = ''2:05'' \<and> comment rq = ''hello'' \<and>
     status rq = ''Pending'' \<and> user rq = ''1'' \<and> requestDate rq = 1000 \<and>
     target rq = ''erin'' \<and> \<not> archived rq \<and> feedback rq = None"
proof -
  let ?b = "ex_body ''88'' (Some ''hello'') ''erin''"
  let ?bm = "ex_beatmap ''Normal'' 2 ''Ranked''"
  let ?rq = "new_Request (mk_map ?bm [?bm] ?b) ex_alice 1000 ?b"
  let ?st = "save_and_close ?rq (ex_queue ''erin'' ''modder'' [''Standard''] 2) ''erin'' ex_db"
  have 1: "post_request ex_osuApi ex_alice ?b 1000 ex_db = Inr (Resp_request ?rq [], ?st)"
    by (simp add: handler_defs ex_defs Let_def)
  have 2: "accepted (Resp_request ?rq []) = Some ?rq"
    by simp
  have 3: "ex_osuApi (req_id ?b) = Some (?bm # [])"
    by (simp add: ex_defs)
  have "Request_coll ?st = Request_coll ex_db @ [?rq] \<and>
     title ?rq = ''Song'' \<and> length_fmt ?rq = ''2:05'' \<and> comment ?rq = ''hello'' \<and>
     status ?rq = ''Pending'' \<and> user ?rq = ''1'' \<and> requestDate ?rq = 1000 \<and>
     target ?rq = ''erin'' \<and> \<not> archived ?rq \<and> feedback ?rq = None"
    using stored_request_fields [OF 1 2 3]
    by (simp add: mk_map_def ex_defs formatTime_def toString_def js_rem_def show_nat.simps
          digit_def)
  with 1 2 show ?thesis by blast
qed

text \<open>
  C7, as stated, fails: a beatmap set whose review status is "Ranked", accepted into the
  queue of a plain modder, is stored with the status "Pending"; the candidate's review
  status is not among the stored fields.
\<close>

theorem stored_request_status_counterexample:
  "post_request ex_osuApi ex_alice (ex_body ''88'' None ''erin'') 1000 ex_db
     = Inr (Resp_request
              (new_Request (mk_map (ex_beatmap ''Normal'' 2 ''Ranked'')
                 [ex_beatmap ''Normal'' 2 ''Ranked''] (ex_body ''88'' None ''erin''))
                 ex_alice 1000 (ex_body ''88'' None ''erin'')) [],
            save_and_close
              (new_Request (mk_map (ex_beatmap ''Normal'' 2 ''Ranked'')
                 [ex_beatmap ''Normal'' 2 ''Ranked''] (ex_body ''88'' None ''erin''))
                 ex_alice 1000 (ex_body ''88'' None ''erin''))
              (ex_queue ''erin'' ''modder'' [''Standard''] 2) ''erin'' ex_db) \<and>
   status (mk_map (ex_beatmap ''Normal'' 2 ''Ranked'')
             [ex_beatmap ''Normal'' 2 ''Ranked''] (ex_body ''88'' None ''erin'')) = ''Ranked'' \<and>
   status (new_Request (mk_map (ex_beatmap ''Normal'' 2 ''Ranked'')
             [ex_beatmap ''Normal'' 2 ''Ranked''] (ex_body ''88'' None ''erin''))
             ex_alice 1000 (ex_body ''88'' None ''erin'')) = ''Pending''"
  by (simp add: handler_defs ex_defs Let_def)

section \<open>The order of the difficulties\<close>






section \<open>Archived requests in the pending count\<close>

lemma length_filter_split:
  "length (filter P xs) =
     length (filter (\<lambda>x. P x \<and> Q x) xs) + length (filter (\<lambda>x. P x \<and> \<not> Q x) xs)"
  by (induction xs) simp_all

text \<open>
  C10. The pending count of the capacity check is the number of stored requests to the
  target with status "Pending", the archived ones and the others alike; the queue is
  closed exactly when that count reaches \<open>maxPending\<close>, so archived pending requests
  alone, with the request just saved, can close it.
\<close>

theorem pending_count_includes_archived:
  assumes run: "post_request osuApi u b now st = Inr (resp, st')"
      and sett: "findOne (\<lambda>x. owner x = req_target b) (Settings_coll st) = Some s"
      and acc: "accepted resp = Some rq"
  shows "numPending (req_target b) (Request_coll st') =
           length (filter (\<lambda>r. (status r = ''Pending'' \<and> target r = req_target b) \<and> archived r)
                     (Request_coll st')) +
           length (filter (\<lambda>r. (status r = ''Pending'' \<and> target r = req_target b) \<and> \<not> archived r)
                     (Request_coll st')) \<and>
         Settings_coll st' =
           (if maxPending s \<le> int (numPending (req_target b) (Request_coll st'))
            then updateOne (\<lambda>x. owner x = req_target b) (\<lambda>x. x\<lparr>open_flag := False\<rparr>)
                   (Settings_coll st)
            else Settings_coll st) \<and>
         (maxPending s \<le> 1 + int (length (filter
              (\<lambda>r. (status r = ''Pending'' \<and> target r = req_target b) \<and> archived r)
              (Request_coll st))) \<longrightarrow>
            map_option open_flag
              (findOne (\<lambda>x. owner x = req_target b) (Settings_coll st')) = Some False)"
  using run
proof (cases rule: post_request_cases)
  case invalid
  with acc show ?thesis by simp
next
  case (rejected first rest s' errors)
  with acc show ?thesis by simp
next
  case (accepted first rest s')
  have s': "s' = s" using accepted(2) sett by simp
  let ?t = "req_target b"
  let ?rq = "new_Request (mk_map first (first # rest) b) u now b"
  have coll: "Request_coll st' = Request_coll st @ [?rq]"
    unfolding accepted(4) by (rule Request_coll_save_and_close)
  have 1: "numPending ?t (Request_coll st') =
           length (filter (\<lambda>r. (status r = ''Pending'' \<and> target r = ?t) \<and> archived r)
                     (Request_coll st')) +
           length (filter (\<lambda>r. (status r = ''Pending'' \<and> target r = ?t) \<and> \<not> archived r)
                     (Request_coll st'))"
    unfolding numPending_def countDocuments_def by (rule length_filter_split)
  have 2: "Settings_coll st' =
           (if maxPending s \<le> int (numPending ?t (Request_coll st'))
            then updateOne (\<lambda>x. owner x = ?t) (\<lambda>x. x\<lparr>open_flag := False\<rparr>) (Settings_coll st)
            else Settings_coll st)"
    unfolding coll unfolding accepted(4) s' by (rule Settings_coll_save_and_close)
  have n: "int (numPending ?t (Request_coll st')) = int (numPending ?t (Request_coll st)) + 1"
    unfolding coll by (simp add: numPending_snoc new_Request_pending)
  have le: "length (filter (\<lambda>r. (status r = ''Pending'' \<and> target r = ?t) \<and> archived r)
               (Request_coll st)) \<le> numPending ?t (Request_coll st)"
    unfolding numPending_def countDocuments_def
    using length_filter_split
      [of "\<lambda>r. status r = ''Pending'' \<and> target r = ?t" "Request_coll st" archived]
    by linarith
  have 3: "map_option open_flag (findOne (\<lambda>x. owner x = ?t) (Settings_coll st')) = Some False"
    if "maxPending s \<le> 1 + int (length (filter
          (\<lambda>r. (status r = ''Pending'' \<and> target r = ?t) \<and> archived r) (Request_coll st)))"
  proof -
    from that le n have "maxPending s \<le> int (numPending ?t (Request_coll st'))"
      by linarith
    with 2 closed_after_update [OF sett] show ?thesis by simp
  qed
  from 1 2 3 show ?thesis by blast
qed

theorem pending_count_includes_archived_witness:
  "\<exists>resp st' rq.
     post_request ex_osuApi ex_alice (ex_body ''88'' None ''dave'') 1000 ex_db = Inr (resp, st') \<and>
     accepted resp = Some rq \<and>
     Request_coll ex_db = [ex_stored ''dave'' 100 True] \<and>
     archived (ex_stored ''dave'' 100 True) \<and>
     numPending ''dave'' (Request_coll st') = 2 \<and>
     map_option open_flag (findOne (\<lambda>x. owner x = ''dave'') (Settings_coll ex_db)) = Some True \<and>
     map_option open_flag (findOne (\<lambda>x. owner x = ''dave'') (Settings_coll st')) = Some False"
proof -
  let ?b = "ex_body ''88'' None ''dave''"
  let ?bm = "ex_beatmap ''Normal'' 2 ''Ranked''"
  let ?rq = "new_Request (mk_map ?bm [?bm] ?b) ex_alice 1000 ?b"
  let ?s = "ex_queue ''dave'' ''modder'' [''Standard''] 2"
  let ?st = "save_and_close ?rq ?s ''dave'' ex_db"
  have 1: "post_request ex_osuApi ex_alice ?b 1000 ex_db = Inr (Resp_request ?rq [], ?st)"
    by (simp add: handler_defs ex_defs Let_def)
  have 2: "findOne (\<lambda>x. owner x = req_target ?b) (Settings_coll ex_db) = Some ?s"
    by (simp add: findOne_def ex_defs)
  have 3: "accepted (Resp_request ?rq []) = Some ?rq"
    by simp
  have t: "req_target ?b = ''dave''"
    by (simp add: ex_defs)
  have 4: "Request_coll ex_db = [ex_stored ''dave'' 100 True]"
    by (simp add: ex_defs)
  have 5: "archived (ex_stored ''dave'' 100 True)"
    by (simp add: ex_defs)
  have 6: "numPending ''dave'' (Request_coll ?st) = 2"
    by (simp add: handler_defs ex_defs Let_def)
  have 7: "map_option open_flag (findOne (\<lambda>x. owner x = ''dave'') (Settings_coll ex_db)) = Some True"
    by (simp add: findOne_def ex_defs)
  have 8: "maxPending ?s \<le> 1 + int (length (filter
              (\<lambda>r. (status r = ''Pending'' \<and> target r = req_target ?b) \<and> archived r)
              (Request_coll ex_db)))"
    by (simp add: ex_defs)
  have 9: "map_option open_flag (findOne (\<lambda>x. owner x = ''dave'') (Settings_coll ?st)) = Some False"
    using pending_count_includes_archived [OF 1 2 3] 8 unfolding t by blast
  show ?thesis
    by (rule exI [of _ "Resp_request ?rq []"], rule exI [of _ ?st], rule exI [of _ ?rq])
       (rule conjI [OF 1 conjI [OF 3 conjI [OF 4 conjI [OF 5 conjI [OF 6 conjI [OF 7 9]]]]]])
qed

section \<open>The rules and the owner\<close>

lemma validate_eq:
  "validate u now s lastReq m =
     map snd (filter fst
       [(\<forall>d\<in>set (diffs m). mode d \<notin> set (modes s),
         if length (modes s) = 1 then ''Only '' @ hd (modes s) @ '' maps are accepted''
         else ''Must be one of the following gamemodes: '' @ join '', '' (modes s)),
        ((modderType s = ''full'' \<or> modderType s = ''probation'') \<and> status m \<noteq> ''Pending'',
         ''Expected a Pending map (this is '' @ status m @ '')''),
        (creator m \<noteq> username u, ''This map isn't yours''),
        (500 < length (comment m), ''Comment is excessively long''),
        (\<not> open_flag s, ''Requests are closed'')]) @
     cooldown_rule now s lastReq"
  by (simp add: validate_def category_rule_def status_rule_def creator_rule_def
        comment_rule_def open_rule_def isBN_def FULL_def PROBATION_def Let_def filter_empty_conv)

text \<open>
  C1. When the requester is not the target owner, the lookup succeeded and the target has
  settings, the handler answers, and the reasons of the answer are, in this order, the
  reason of each of the six rules that is violated: category filter, review-status gate,
  ownership check, comment length, open-queue check, cooldown check, each decided on its
  own. In particular a wrong category and a comment of more than 500 characters yield a
  list that holds both reasons.
\<close>

theorem all_violations_reported:
  fixes first :: beatmap and rest :: "beatmap list" and b :: body and s :: settings
    and u :: session_user
  defines "m \<equiv> mk_map first (first # rest) b"
  defines "category_reason \<equiv>
     (if length (modes s) = 1 then ''Only '' @ hd (modes s) @ '' maps are accepted''
      else ''Must be one of the following gamemodes: '' @ join '', '' (modes s))"
  assumes look: "osuApi (req_id b) = Some (first # rest)"
      and sett: "findOne (\<lambda>x. owner x = req_target b) (Settings_coll st) = Some s"
      and other: "username u \<noteq> req_target b"
  shows "\<exists>resp st'.
     post_request osuApi u b now st = Inr (resp, st') \<and>
     resp_errors resp =
       map snd (filter fst
         [(\<forall>d\<in>set (diffs m). mode d \<notin> set (modes s), category_reason),
          ((modderType s = ''full'' \<or> modderType s = ''probation'') \<and> status m \<noteq> ''Pending'',
           ''Expected a Pending map (this is '' @ status m @ '')''),
          (creator m \<noteq> username u, ''This map isn't yours''),
          (500 < length (comment m), ''Comment is excessively long''),
          (\<not> open_flag s, ''Requests are closed'')]) @
       cooldown_rule now s
         (findOne_newest (\<lambda>r. user r = userid u \<and> target r = req_target b) (Request_coll st)) \<and>
     ((\<forall>d\<in>set (diffs m). mode d \<notin> set (modes s)) \<and> 500 < length (comment m) \<longrightarrow>
        category_reason \<in> set (resp_errors resp) \<and>
        ''Comment is excessively long'' \<in> set (resp_errors resp))"
proof -
  let ?lastReq = "findOne_newest (\<lambda>r. user r = userid u \<and> target r = req_target b) (Request_coll st)"
  let ?v = "validate u now s ?lastReq m"
  let ?rq = "new_Request m u now b"
  have run: "post_request osuApi u b now st =
      (if ?v = [] then Inr (Resp_request ?rq [], save_and_close ?rq s (req_target b) st)
       else Inr (Resp_map m ?v, st))"
    using post_request_evaluated [where osuApi = osuApi and b = b and u = u and now = now, OF look sett] other by (simp add: Let_def m_def)
  obtain resp st' where r: "post_request osuApi u b now st = Inr (resp, st')"
    and e: "resp_errors resp = ?v"
    using run by (cases "?v = []") simp_all
  have v: "?v =
       map snd (filter fst
         [(\<forall>d\<in>set (diffs m). mode d \<notin> set (modes s), category_reason),
          ((modderType s = ''full'' \<or> modderType s = ''probation'') \<and> status m \<noteq> ''Pending'',
           ''Expected a Pending map (this is '' @ status m @ '')''),
          (creator m \<noteq> username u, ''This map isn't yours''),
          (500 < length (comment m), ''Comment is excessively long''),
          (\<not> open_flag s, ''Requests are closed'')]) @
       cooldown_rule now s ?lastReq"
    unfolding category_reason_def by (rule validate_eq)
  have both: "category_reason \<in> set ?v \<and> ''Comment is excessively long'' \<in> set ?v"
    if "(\<forall>d\<in>set (diffs m). mode d \<notin> set (modes s)) \<and> 500 < length (comment m)"
    unfolding v using that by simp
  from e v have e': "resp_errors resp =
       map snd (filter fst
         [(\<forall>d\<in>set (diffs m). mode d \<notin> set (modes s), category_reason),
          ((modderType s = ''full'' \<or> modderType s = ''probation'') \<and> status m \<noteq> ''Pending'',
           ''Expected a Pending map (this is '' @ status m @ '')''),
          (creator m \<noteq> username u, ''This map isn't yours''),
          (500 < length (comment m), ''Comment is excessively long''),
          (\<not> open_flag s, ''Requests are closed'')]) @
       cooldown_rule now s ?lastReq"
    by (rule trans)
  have p: "(\<forall>d\<in>set (diffs m). mode d \<notin> set (modes s)) \<and> 500 < length (comment m) \<longrightarrow>
        category_reason \<in> set (resp_errors resp) \<and>
        ''Comment is excessively long'' \<in> set (resp_errors resp)"
    unfolding e using both by blast
  show ?thesis
    by (rule exI [of _ resp], rule exI [of _ st']) (rule conjI [OF r conjI [OF e' p]])
qed

theorem all_violations_reported_witness:
  "\<exists>resp st'.
     post_request ex_osuApi ex_frank (ex_body ''88'' (Some (replicate 501 CHR ''a'')) ''gina'')
       302400100 ex_db_closed = Inr (resp, st') \<and>
     resp_errors resp =
       [''Must be one of the following gamemodes: Taiko, Mania'',
        ''Expected a Pending map (this is Ranked)'',
        ''This map isn't yours'',
        ''Comment is excessively long'',
        ''Requests are closed'',
        ''You need to wait 3.5 days before you can request again'']"
proof -
  let ?b = "ex_body ''88'' (Some (replicate 501 CHR ''a'')) ''gina''"
  let ?bm = "ex_beatmap ''Normal'' 2 ''Ranked''"
  let ?s = "(ex_queue ''gina'' ''probation'' [''Taiko'', ''Mania''] 5)\<lparr>open_flag := False\<rparr>"
  have 1: "ex_osuApi (req_id ?b) = Some (?bm # [])"
    by (simp add: ex_defs)
  have 2: "findOne (\<lambda>x. owner x = req_target ?b) (Settings_coll ex_db_closed) = Some ?s"
    by (simp add: findOne_def ex_defs)
  have 3: "username ex_frank \<noteq> req_target ?b"
    by (simp add: ex_defs)
  have 4: "(\<forall>d\<in>set (diffs (mk_map ?bm [?bm] ?b)). mode d \<notin> set (modes ?s)) \<and>
           500 < length (comment (mk_map ?bm [?bm] ?b))"
    by (simp add: mk_map_def mk_diffs_def mk_diff_def ex_defs)
  have 5: "cooldown_rule 302400100 ?s
             (findOne_newest (\<lambda>r. user r = userid ex_frank \<and> target r = req_target ?b)
                (Request_coll ex_db_closed))
           = [''You need to wait 3.5 days before you can request again'']"
    by (simp add: cooldown_rule_def remainingDays_def elapsedMs_def minWait_def findOne_newest_def
          ex_defs number_defs Let_def)
  from all_violations_reported [where osuApi = ex_osuApi and b = ?b and u = ex_frank
      and now = 302400100 and st = ex_db_closed, OF 1 2 3]
  obtain resp st' where
    r: "post_request ex_osuApi ex_frank ?b 302400100 ex_db_closed = Inr (resp, st')" and
    e: "resp_errors resp =
       map snd (filter fst
         [(\<forall>d\<in>set (diffs (mk_map ?bm [?bm] ?b)). mode d \<notin> set (modes ?s),
           if length (modes ?s) = 1 then ''Only '' @ hd (modes ?s) @ '' maps are accepted''
           else ''Must be one of the following gamemodes: '' @ join '', '' (modes ?s)),
          ((modderType ?s = ''full'' \<or> modderType ?s = ''probation'') \<and>
             status (mk_map ?bm [?bm] ?b) \<noteq> ''Pending'',
           ''Expected a Pending map (this is '' @ status (mk_map ?bm [?bm] ?b) @ '')''),
          (creator (mk_map ?bm [?bm] ?b) \<noteq> username ex_frank, ''This map isn't yours''),
          (500 < length (comment (mk_map ?bm [?bm] ?b)), ''Comment is excessively long''),
          (\<not> open_flag ?s, ''Requests are closed'')]) @
       cooldown_rule 302400100 ?s
         (findOne_newest (\<lambda>r. user r = userid ex_frank \<and> target r = req_target ?b)
            (Request_coll ex_db_closed))"
    by blast
  have "resp_errors resp =
       [''Must be one of the following gamemodes: Taiko, Mania'',
        ''Expected a Pending map (this is Ranked)'',
        ''This map isn't yours'',
        ''Comment is excessively long'',
        ''Requests are closed'',
        ''You need to wait 3.5 days before you can request again'']"
    unfolding e 5 using 4 by (simp add: mk_map_def ex_defs)
  with r show ?thesis by blast
qed

text \<open>
  C2. When the requester is the target owner (and the lookup succeeded and the target has
  settings), the handler accepts: the reasons of the answer are empty and the request is
  saved, whatever the six rules found.
\<close>

theorem owner_bypass:
  assumes look: "osuApi (req_id b) = Some (first # rest)"
      and sett: "findOne (\<lambda>x. owner x = req_target b) (Settings_coll st) = Some s"
      and self: "username u = req_target b"
  shows "\<exists>rq st'.
     post_request osuApi u b now st = Inr (Resp_request rq [], st') \<and>
     resp_errors (Resp_request rq []) = [] \<and>
     Request_coll st' = Request_coll st @ [rq]"
proof -
  let ?rq = "new_Request (mk_map first (first # rest) b) u now b"
  let ?st = "save_and_close ?rq s (req_target b) st"
  have 1: "post_request osuApi u b now st = Inr (Resp_request ?rq [], ?st)"
    using post_request_evaluated [where osuApi = osuApi and b = b and u = u and now = now,
        OF look sett] self
    by (simp add: Let_def)
  have 2: "resp_errors (Resp_request ?rq []) = []"
    by simp
  have 3: "Request_coll ?st = Request_coll st @ [?rq]"
    by (rule Request_coll_save_and_close)
  show ?thesis
    by (rule exI [of _ ?rq], rule exI [of _ ?st]) (rule conjI [OF 1 conjI [OF 2 3]])
qed

theorem owner_bypass_witness:
  "validate ex_gina 302400200
     ((ex_queue ''gina'' ''probation'' [''Taiko'', ''Mania''] 5)\<lparr>open_flag := False\<rparr>)
     (findOne_newest (\<lambda>r. user r = ''7'' \<and> target r = ''gina'') (Request_coll ex_db_closed))
     (mk_map (ex_beatmap ''Normal'' 2 ''Ranked'') [ex_beatmap ''Normal'' 2 ''Ranked'']
        (ex_body ''88'' (Some (replicate 501 CHR ''a'')) ''gina''))
   = [''Must be one of the following gamemodes: Taiko, Mania'',
      ''Expected a Pending map (this is Ranked)'',
      ''This map isn't yours'',
      ''Comment is excessively long'',
      ''Requests are closed'',
      ''You need to wait 3.5 days before you can request again''] \<and>
   (\<exists>rq st'.
      post_request ex_osuApi ex_gina (ex_body ''88'' (Some (replicate 501 CHR ''a'')) ''gina'')
        302400200 ex_db_closed = Inr (Resp_request rq [], st') \<and>
      resp_errors (Resp_request rq []) = [] \<and>
      Request_coll st' = Request_coll ex_db_closed @ [rq])"
proof -
  let ?b = "ex_body ''88'' (Some (replicate 501 CHR ''a'')) ''gina''"
  let ?bm = "ex_beatmap ''Normal'' 2 ''Ranked''"
  let ?s = "(ex_queue ''gina'' ''probation'' [''Taiko'', ''Mania''] 5)\<lparr>open_flag := False\<rparr>"
  have 1: "ex_osuApi (req_id ?b) = Some (?bm # [])"
    by (simp add: ex_defs)
  have 2: "findOne (\<lambda>x. owner x = req_target ?b) (Settings_coll ex_db_closed) = Some ?s"
    by (simp add: findOne_def ex_defs)
  have 3: "username ex_gina = req_target ?b"
    by (simp add: ex_defs)
  have 4: "validate ex_gina 302400200 ?s
     (findOne_newest (\<lambda>r. user r = ''7'' \<and> target r = ''gina'') (Request_coll ex_db_closed))
     (mk_map ?bm [?bm] ?b)
   = [''Must be one of the following gamemodes: Taiko, Mania'',
      ''Expected a Pending map (this is Ranked)'',
      ''This map isn't yours'',
      ''Comment is excessively long'',
      ''Requests are closed'',
      ''You need to wait 3.5 days before you can request again'']"
    by (simp add: handler_defs ex_defs Let_def number_defs)
  from 4 owner_bypass [where osuApi = ex_osuApi and b = ?b and u = ex_gina
      and now = 302400200 and st = ex_db_closed, OF 1 2 3]
  show ?thesis by (rule conjI)
qed

end
